theory Spec2Isabelle
  imports Complex_Main "HOL-Library.AList"
begin

section \<open>Python values, errors and the orchestrator's world\<close>

text \<open>
  The orchestrator of the classical hazard calculation
  (\<^verbatim>\<open>openquake/calculators/hazard/classical/core.py\<close>) and the task
  distributor (\<^verbatim>\<open>openquake/utils/tasks.py\<close>) are embedded as functions over an
  explicit world: the shared cache, the progress counters, the subtasks handed to the
  work queue and a log of the calls made to external collaborators.

  Python floats that are only passed around (quantiles, PoEs, curve ordinates) or
  scaled by constants (the polling pause) are modelled as rationals.
\<close>

datatype 's pyval =
    PNone
  | PInt int
  | PFloat rat
  | PStr string
  | PSite 's
  | PSeq "'s pyval list"
  | PExc string

text \<open>
  \<open>PSeq\<close> is a list, tuple or set; \<open>PExc\<close> is an instance of \<^verbatim>\<open>Exception\<close>.
  A keyword-argument dictionary is an association list with distinct keys.
\<close>

type_synonym 's kwargs = "(string \<times> 's pyval) list"

datatype error =
    Raised string
  | RuntimeError "(string \<times> int) list"
  | ValueError
  | TypeError
  | AssertionError string
  | Unfinished

text \<open>
  \<open>Raised e\<close> is the exception instance \<open>PExc e\<close> re-raised by
  \<^verbatim>\<open>_check_exception\<close>; \<open>RuntimeError fs\<close> is
  \<^verbatim>\<open>RuntimeError("hazard failures (%s), aborting" % failures)\<close>.
  \<open>Unfinished\<close> is no Python exception: it marks a polling loop that has not
  completed within the number of iterations the model was given.
\<close>

record xsc =
  xsc_blocks :: "int option"
  xsc_cblock :: "int option"
  i_total :: nat
  i_done :: nat
  i_next :: nat

datatype attrib_update =
    EndBranchLabel nat
  | StatisticsMean
  | StatisticsQuantile rat

datatype phase = Curves | Means | Quantiles | Purge

datatype 's event =
    StoreSourceModel nat
  | StoreGmpeMap nat
  | FailureCheck "(string \<times> int) list"
  | Sleep rat
  | CacheRead string
  | SerializeCurves attrib_update "('s \<times> rat list) list" xsc
  | MeanMaps "'s list" "rat list"
  | QuantileMaps "'s list" "rat list" "rat list"
  | SerializeMap attrib_update rat "('s \<times> rat list option) list" xsc

record 's world =
  clock :: nat
  kvs :: "string \<Rightarrow> rat list option"
  counters :: "string \<Rightarrow> int option"
  submitted :: "'s kwargs list"
  log :: "'s event list"
  calls :: "(phase \<times> nat \<times> 's list) list"
  kvs_keys_purged :: "string list option"

text \<open>
  \<open>kvs\<close> is the shared result cache, \<open>counters\<close> the progress counters of the job
  (\<^verbatim>\<open>stats.pk_set\<close>, \<^verbatim>\<open>pk_inc\<close>, \<^verbatim>\<open>pk_get\<close>), \<open>submitted\<close> the subtasks
  handed to the work queue so far, \<open>log\<close> the calls to external collaborators in
  the order they were made. \<open>calls\<close> is a history variable: \<open>execute\<close> records each
  phase it enters together with the start offset and the slice of the block.
  \<open>kvs_keys_purged\<close> is the list object a test may pass to \<open>execute\<close>.
\<close>

datatype qarg = QFloat rat | QStr rat

text \<open>
  The key templates of \<^verbatim>\<open>kvs.tokens\<close>, the site hash, the random number
  generator, the failure counters and the workers that fill the cache are outside
  the two source files; they are parameters of the model. A template is given with
  \<^verbatim>\<open>template % hash(site)\<close> already applied: it maps the hash to the key.
  \<open>QStr q\<close> is \<^verbatim>\<open>str(quantile)\<close>. \<open>random_stream seed i\<close> is the \<open>i\<close>-th
  draw of a \<^verbatim>\<open>random.Random\<close> seeded with \<open>seed\<close>. \<open>failure_counters t\<close> is what
  \<^verbatim>\<open>stats.failure_counters(job_id, "h")\<close> returns at time \<open>t\<close>, and
  \<open>arrivals t\<close> are the cache writes of the workers that become visible at time \<open>t\<close>.
\<close>

record 's env =
  hash_site :: "'s \<Rightarrow> int"
  random_stream :: "int \<Rightarrow> nat \<Rightarrow> nat"
  hazard_curve_poes_key_template :: "int \<Rightarrow> nat \<Rightarrow> int \<Rightarrow> string"
  mean_hazard_curve_key_template :: "int \<Rightarrow> int \<Rightarrow> string"
  quantile_hazard_curve_key_template :: "int \<Rightarrow> qarg \<Rightarrow> int \<Rightarrow> string"
  mean_hazard_map_key_template :: "int \<Rightarrow> rat \<Rightarrow> int \<Rightarrow> string"
  quantile_hazard_map_key_template :: "int \<Rightarrow> rat \<Rightarrow> rat \<Rightarrow> int \<Rightarrow> string"
  failure_counters :: "nat \<Rightarrow> (string \<times> int) list"
  arrivals :: "nat \<Rightarrow> (string \<times> rat list) list"

record 's job_ctxt =
  job_id :: int
  sites_to_compute :: "'s list"
  NUMBER_OF_LOGIC_TREE_SAMPLES :: nat
  SOURCE_MODEL_LT_RANDOM_SEED :: int
  GMPE_LT_RANDOM_SEED :: int
  COMPUTE_MEAN_HAZARD_CURVE :: bool
  quantile_levels :: "rat list"
  poes_hazard_maps :: "rat list"
  hazard_block_size :: int

definition emit :: "'s event \<Rightarrow> 's world \<Rightarrow> 's world" where
  "emit e w = w\<lparr>log := log w @ [e]\<rparr>"

definition pk_set :: "string \<Rightarrow> int \<Rightarrow> 's world \<Rightarrow> 's world" where
  "pk_set k v w = w\<lparr>counters := (counters w)(k \<mapsto> v)\<rparr>"

definition pk_inc :: "string \<Rightarrow> 's world \<Rightarrow> 's world" where
  "pk_inc k w =
     w\<lparr>counters := (counters w)(k \<mapsto> (case counters w k of None \<Rightarrow> 1 | Some v \<Rightarrow> v + 1))\<rparr>"

definition pk_get :: "string \<Rightarrow> 's world \<Rightarrow> int option" where
  "pk_get k w = counters w k"

text \<open>
  Time passes while the orchestrator sleeps or runs an external computation: the
  workers' cache writes of the current instant arrive and the clock advances.
\<close>

definition tick :: "'s env \<Rightarrow> 's world \<Rightarrow> 's world" where
  "tick env w =
     w\<lparr>clock := clock w + 1,
       kvs := fold (\<lambda>kv m. m(fst kv \<mapsto> snd kv)) (arrivals env (clock w)) (kvs w)\<rparr>"

definition get_value_json_decoded :: "string \<Rightarrow> 's world \<Rightarrow> rat list option \<times> 's world" where
  "get_value_json_decoded key w = (kvs w key, emit (CacheRead key) w)"

definition kvs_delete :: "string list \<Rightarrow> 's world \<Rightarrow> 's world" where
  "kvs_delete keys w = w\<lparr>kvs := (\<lambda>k. if k \<in> set keys then None else kvs w k)\<rparr>"

section \<open>tasks.py: the task distributor\<close>

text \<open>
  A celery task: whether its results are ignored, and what the result backend
  holds for a subtask once it has run (a value, or the exception it raised).
\<close>

record 's task =
  ignore_result :: bool
  run_subtask :: "'s kwargs \<Rightarrow> 's pyval"

fun check_exception :: "'s pyval list \<Rightarrow> error + unit" where
  "check_exception [] = Inr ()"
| "check_exception (PExc e # rs) = Inl (Raised e)"
| "check_exception (r # rs) = check_exception rs"

text \<open>\<^verbatim>\<open>itertools.chain(*results)\<close>: every result must be iterable.\<close>

fun iterate :: "'s pyval \<Rightarrow> error + 's pyval list" where
  "iterate (PSeq xs) = Inr xs"
| "iterate (PStr s) = Inr (map (\<lambda>c. PStr [c]) s)"
| "iterate r = Inl TypeError"

fun chain :: "'s pyval list \<Rightarrow> error + 's pyval list" where
  "chain [] = Inr []"
| "chain (r # rs) =
     (case iterate r of
        Inl e \<Rightarrow> Inl e
      | Inr xs \<Rightarrow> (case chain rs of Inl e \<Rightarrow> Inl e | Inr ys \<Rightarrow> Inr (xs @ ys)))"

definition is_list_tuple_set :: "'s pyval \<Rightarrow> bool" where
  "is_list_tuple_set r = (case r of PSeq xs \<Rightarrow> True | _ \<Rightarrow> False)"

text \<open>
  \<^verbatim>\<open>subtask(**dict(tf_args.items() + [(name, item)]))\<close> when \<open>tf_args\<close> is a
  non-empty dictionary, \<^verbatim>\<open>subtask(**{name: item})\<close> otherwise.
\<close>

definition make_subtasks :: "string \<Rightarrow> 's pyval list \<Rightarrow> 's kwargs option \<Rightarrow> 's kwargs list" where
  "make_subtasks name data tf_args =
     (case tf_args of
        Some args \<Rightarrow>
          if args \<noteq> [] then map (\<lambda>item. AList.update name item args) data
          else map (\<lambda>item. [(name, item)]) data
      | None \<Rightarrow> map (\<lambda>item. [(name, item)]) data)"

text \<open>
  \<^verbatim>\<open>TaskSet(tasks=subtasks).apply_async()\<close> hands the subtasks to the work queue;
  \<^verbatim>\<open>result.join_native()\<close> waits for all of them and returns what the result
  backend holds for each, in the order of the subtasks.
\<close>

definition apply_async :: "'s kwargs list \<Rightarrow> 's world \<Rightarrow> 's world" where
  "apply_async subtasks w = w\<lparr>submitted := submitted w @ subtasks\<rparr>"

definition join_native :: "'s task \<Rightarrow> 's kwargs list \<Rightarrow> 's pyval list" where
  "join_native task_func subtasks = map (run_subtask task_func) subtasks"

type_synonym 's handler = "'s kwargs \<Rightarrow> 's world \<Rightarrow> (error + 's pyval) \<times> 's world"

definition distribute ::
  "'s task \<Rightarrow> string \<times> 's pyval list \<Rightarrow> 's kwargs option \<Rightarrow> 's handler option \<Rightarrow>
   's kwargs option \<Rightarrow> bool \<Rightarrow> 's world \<Rightarrow> (error + 's pyval) \<times> 's world" where
  "distribute task_func name_data tf_args ath ath_args flatten_results w =
     (let subtasks = make_subtasks (fst name_data) (snd name_data) tf_args;
          w1 = apply_async subtasks w
      in if ignore_result task_func then
           (case ath of
              Some h \<Rightarrow>
                (case ath_args of
                   Some a \<Rightarrow> if a \<noteq> [] then h a w1 else h [] w1
                 | None \<Rightarrow> h [] w1)
            | None \<Rightarrow> (Inr PNone, w1))
         else
           (let results = join_native task_func subtasks
            in case check_exception results of
                 Inl e \<Rightarrow> (Inl e, w1)
               | Inr u \<Rightarrow>
                   if results \<noteq> [] \<and> flatten_results then
                     (if is_list_tuple_set (hd results) then
                        (case chain results of
                           Inl e \<Rightarrow> (Inl e, w1)
                         | Inr rs \<Rightarrow> (Inr (PSeq rs), w1))
                      else (Inr (PSeq results), w1))
                   else (Inr (PSeq results), w1)))"

section \<open>core.py: purging a block from the cache\<close>

definition purge_keys :: "string list \<Rightarrow> 's world \<Rightarrow> 's world" where
  "purge_keys keys w =
     (let w1 = kvs_delete keys w
      in case kvs_keys_purged w1 of
           None \<Rightarrow> w1
         | Some purged \<Rightarrow> w1\<lparr>kvs_keys_purged := Some (purged @ keys)\<rparr>)"

definition release_data_from_kvs ::
  "'s env \<Rightarrow> int \<Rightarrow> 's list \<Rightarrow> nat \<Rightarrow> rat list \<Rightarrow> rat list \<Rightarrow> 's world \<Rightarrow> 's world" where
  "release_data_from_kvs env job sites realizations quantiles poes w =
     (let w1 = fold (\<lambda>realization.
                  purge_keys (map (\<lambda>site. hazard_curve_poes_key_template env job realization
                                            (hash_site env site)) sites))
                [0..<realizations] w;
          w2 = purge_keys (map (\<lambda>site. mean_hazard_curve_key_template env job
                                            (hash_site env site)) sites) w1;
          w3 = fold (\<lambda>quantile.
                  purge_keys
                    (map (\<lambda>site. quantile_hazard_curve_key_template env job (QFloat quantile)
                                    (hash_site env site)) sites
                     @ concat (map (\<lambda>poe.
                           map (\<lambda>site. quantile_hazard_map_key_template env job poe quantile
                                          (hash_site env site)) sites) poes)))
                quantiles w2
      in fold (\<lambda>poe.
            purge_keys (map (\<lambda>site. mean_hazard_map_key_template env job poe
                                      (hash_site env site)) sites))
          poes w3)"

section \<open>core.py: the polling loop of serialize\_hazard\_curve\<close>

record pgen =
  started :: bool
  gen_value :: rat

definition pause_generator :: "rat \<Rightarrow> pgen" where
  "pause_generator v = \<lparr>started = False, gen_value = v\<rparr>"

text \<open>\<^verbatim>\<open>pgen.next()\<close>: the value yielded and the generator afterwards.\<close>

definition pgen_next :: "pgen \<Rightarrow> rat \<times> pgen" where
  "pgen_next g =
     (if \<not> started g then (gen_value g, g\<lparr>started := True\<rparr>)
      else (let v = (if gen_value g < 45 then gen_value g * 2 else gen_value g)
            in (v, g\<lparr>gen_value := v\<rparr>)))"

definition min_pause :: rat where
  "min_pause = 1 / 10"

text \<open>
  The end of a polling cycle (lines 536 to 545): the new pause and generator, given
  the number of results found in the cycle.
\<close>

definition update_pause :: "nat \<Rightarrow> rat \<times> pgen \<Rightarrow> rat \<times> pgen" where
  "update_pause results_found s =
     (if results_found = 0 then pgen_next (snd s)
      else (let p = fst s * (8 / 10) in (if p < min_pause then min_pause else p, snd s)))"

definition initial_pause :: "rat \<times> pgen" where
  "initial_pause = pgen_next (pause_generator min_pause)"


text \<open>
  The \<^verbatim>\<open>for site in sites\<close> loop of one polling cycle. Its state is
  \<open>hc_data\<close>, \<open>accounted_for\<close>, \<open>results_found\<close> and the world.
\<close>

fun scan_sites ::
  "('s \<Rightarrow> string) \<Rightarrow> 's list \<Rightarrow> ('s \<times> rat list) list \<times> 's set \<times> nat \<times> 's world \<Rightarrow>
   ('s \<times> rat list) list \<times> 's set \<times> nat \<times> 's world" where
  "scan_sites key [] st = st"
| "scan_sites key (site # rest) (hc_data, accounted_for, results_found, w) =
     (if site \<in> accounted_for then scan_sites key rest (hc_data, accounted_for, results_found, w)
      else
        (case get_value_json_decoded (key site) w of
           (None, w1) \<Rightarrow> scan_sites key rest (hc_data, accounted_for, results_found, w1)
         | (Some v, w1) \<Rightarrow>
             scan_sites key rest
               (hc_data @ [(site, v)], insert site accounted_for, results_found + 1, w1)))"

record 's poll_vars =
  accounted_for :: "'s set"
  pause :: rat
  pauses :: pgen
  ctx_xsc :: xsc

text \<open>
  The \<^verbatim>\<open>while accounted_for != sites\<close> loop. \<open>sites\<close> is the iteration order of
  \<^verbatim>\<open>set(sites)\<close>; the first argument bounds the number of iterations.
\<close>

fun poll ::
  "nat \<Rightarrow> 's env \<Rightarrow> (int \<Rightarrow> string) \<Rightarrow> attrib_update \<Rightarrow> 's list \<Rightarrow> 's poll_vars \<Rightarrow>
   's world \<Rightarrow> (error + unit) \<times> 's world" where
  "poll 0 env key_template upd sites pv w =
     (if accounted_for pv \<noteq> set sites then (Inl Unfinished, w) else (Inr (), w))"
| "poll (Suc n) env key_template upd sites pv w =
     (if accounted_for pv \<noteq> set sites then
        (let failures = failure_counters env (clock w);
             w1 = emit (FailureCheck failures) w
         in if failures \<noteq> [] then (Inl (RuntimeError failures), w1)
            else
              (let w2 = tick env (emit (Sleep (pause pv)) w1)
               in case scan_sites (\<lambda>site. key_template (hash_site env site)) sites
                         ([], accounted_for pv, 0, w2) of
                    (hc_data, acc, results_found, w3) \<Rightarrow>
                      (let p = update_pause results_found (pause pv, pauses pv)
                       in if results_found = 0 then
                            poll n env key_template upd sites
                              (pv\<lparr>accounted_for := acc, pause := fst p, pauses := snd p\<rparr>) w3
                          else
                            poll n env key_template upd sites
                              (pv\<lparr>accounted_for := acc, pause := fst p, pauses := snd p,
                                  ctx_xsc := (ctx_xsc pv)\<lparr>i_done := i_done (ctx_xsc pv)
                                                           + length hc_data\<rparr>\<rparr>)
                              (emit (SerializeCurves upd hc_data
                                      ((ctx_xsc pv)\<lparr>i_next := length hc_data\<rparr>)) w3))))
      else (Inr (), w))"

definition serialize_hazard_curve ::
  "nat \<Rightarrow> 's env \<Rightarrow> (int \<Rightarrow> string) \<Rightarrow> attrib_update \<Rightarrow> 's list \<Rightarrow> 's world \<Rightarrow>
   (error + unit) \<times> 's world" where
  "serialize_hazard_curve fuel env key_template hc_attrib_update sites w =
     (let c = \<lparr>xsc_blocks = pk_get ''blocks'' w, xsc_cblock = pk_get ''cblock'' w,
               i_total = length sites, i_done = 0, i_next = 0\<rparr>;
          p = initial_pause
      in poll fuel env key_template hc_attrib_update (remdups sites)
           \<lparr>accounted_for = {}, pause = fst p, pauses = snd p, ctx_xsc = c\<rparr> w)"

definition serialize_hazard_curve_of_realization ::
  "nat \<Rightarrow> 's env \<Rightarrow> 's job_ctxt \<Rightarrow> 's list \<Rightarrow> nat \<Rightarrow> 's world \<Rightarrow> (error + unit) \<times> 's world" where
  "serialize_hazard_curve_of_realization fuel env ctx sites realization w =
     serialize_hazard_curve fuel env
       (hazard_curve_poes_key_template env (job_id ctx) realization)
       (EndBranchLabel realization) sites w"

definition serialize_mean_hazard_curves ::
  "nat \<Rightarrow> 's env \<Rightarrow> 's job_ctxt \<Rightarrow> 's list \<Rightarrow> 's world \<Rightarrow> (error + unit) \<times> 's world" where
  "serialize_mean_hazard_curves fuel env ctx sites w =
     serialize_hazard_curve fuel env (mean_hazard_curve_key_template env (job_id ctx))
       StatisticsMean sites w"

fun serialize_quantile_hazard_curves ::
  "nat \<Rightarrow> 's env \<Rightarrow> 's job_ctxt \<Rightarrow> 's list \<Rightarrow> rat list \<Rightarrow> 's world \<Rightarrow> (error + unit) \<times> 's world" where
  "serialize_quantile_hazard_curves fuel env ctx sites [] w = (Inr (), w)"
| "serialize_quantile_hazard_curves fuel env ctx sites (quantile # rest) w =
     (case serialize_hazard_curve fuel env
             (quantile_hazard_curve_key_template env (job_id ctx) (QStr quantile))
             (StatisticsQuantile quantile) sites w of
        (Inl e, w1) \<Rightarrow> (Inl e, w1)
      | (Inr u, w1) \<Rightarrow> serialize_quantile_hazard_curves fuel env ctx sites rest w1)"

section \<open>core.py: serializing hazard maps\<close>

fun read_map_data ::
  "('s \<Rightarrow> string) \<Rightarrow> 's list \<Rightarrow> 's world \<Rightarrow> ('s \<times> rat list option) list \<times> 's world" where
  "read_map_data key [] w = ([], w)"
| "read_map_data key (site # rest) w =
     (case get_value_json_decoded (key site) w of
        (v, w1) \<Rightarrow> (case read_map_data key rest w1 of (hm_data, w2) \<Rightarrow> ((site, v) # hm_data, w2)))"

definition serialize_hazard_map_at_poe ::
  "'s env \<Rightarrow> 's list \<Rightarrow> rat \<Rightarrow> (int \<Rightarrow> string) \<Rightarrow> attrib_update \<Rightarrow> 's world \<Rightarrow> 's world" where
  "serialize_hazard_map_at_poe env sites poe key_template hm_attrib_update w =
     (case read_map_data (\<lambda>site. key_template (hash_site env site)) sites w of
        (hm_data, w1) \<Rightarrow>
          emit (SerializeMap hm_attrib_update poe hm_data
                  \<lparr>xsc_blocks = pk_get ''blocks'' w1, xsc_cblock = pk_get ''cblock'' w1,
                   i_total = length sites, i_done = 0, i_next = length hm_data\<rparr>) w1)"

definition serialize_mean_hazard_map ::
  "'s env \<Rightarrow> 's job_ctxt \<Rightarrow> 's list \<Rightarrow> rat list \<Rightarrow> 's world \<Rightarrow> 's world" where
  "serialize_mean_hazard_map env ctx sites poes w =
     fold (\<lambda>poe. serialize_hazard_map_at_poe env sites poe
                   (mean_hazard_map_key_template env (job_id ctx) poe) StatisticsMean) poes w"

definition serialize_quantile_hazard_map ::
  "'s env \<Rightarrow> 's job_ctxt \<Rightarrow> 's list \<Rightarrow> rat list \<Rightarrow> rat \<Rightarrow> 's world \<Rightarrow> 's world" where
  "serialize_quantile_hazard_map env ctx sites poes quantile w =
     fold (\<lambda>poe. serialize_hazard_map_at_poe env sites poe
                   (quantile_hazard_map_key_template env (job_id ctx) poe quantile)
                   (StatisticsQuantile quantile)) poes w"

text \<open>
  The map reductions \<^verbatim>\<open>general.compute_mean_hazard_maps\<close> and
  \<^verbatim>\<open>general.compute_quantile_hazard_maps\<close> are external: the call is logged and
  time passes.
\<close>

definition compute_mean_hazard_maps ::
  "'s env \<Rightarrow> int \<Rightarrow> 's list \<Rightarrow> rat list \<Rightarrow> 's world \<Rightarrow> 's world" where
  "compute_mean_hazard_maps env job sites poes w = tick env (emit (MeanMaps sites poes) w)"

definition compute_quantile_hazard_maps ::
  "'s env \<Rightarrow> int \<Rightarrow> 's list \<Rightarrow> rat list \<Rightarrow> rat list \<Rightarrow> 's world \<Rightarrow> 's world" where
  "compute_quantile_hazard_maps env job sites quantiles poes w =
     tick env (emit (QuantileMaps sites quantiles poes) w)"

section \<open>core.py: the three phases and the block scheduler\<close>

text \<open>
  A \<^verbatim>\<open>random.Random\<close> instance: the seed it was given and the number of draws
  made since.
\<close>

record rng =
  rng_seed :: int
  rng_drawn :: nat

definition Random_seed :: "int \<Rightarrow> rng" where
  "Random_seed s = \<lparr>rng_seed = s, rng_drawn = 0\<rparr>"

definition getrandbits32 :: "'s env \<Rightarrow> rng \<Rightarrow> nat \<times> rng" where
  "getrandbits32 env g =
     (random_stream env (rng_seed g) (rng_drawn g) mod 2 ^ 32, g\<lparr>rng_drawn := rng_drawn g + 1\<rparr>)"

text \<open>
  \<^verbatim>\<open>store_source_model\<close> and \<^verbatim>\<open>store_gmpe_map\<close> belong to the base calculator;
  the model logs the seed each is given.
\<close>

definition store_source_model :: "nat \<Rightarrow> 's world \<Rightarrow> 's world" where
  "store_source_model seed w = emit (StoreSourceModel seed) w"

definition store_gmpe_map :: "nat \<Rightarrow> 's world \<Rightarrow> 's world" where
  "store_gmpe_map seed w = emit (StoreGmpeMap seed) w"

text \<open>
  The celery tasks of the module are declared with \<^verbatim>\<open>ignore_result=True\<close>: the
  substrate discards what they return, their effect is on the cache.
\<close>

definition compute_hazard_curve :: "'s task" where
  "compute_hazard_curve = \<lparr>ignore_result = True, run_subtask = (\<lambda>kw. PNone)\<rparr>"

definition compute_mean_curves :: "'s task" where
  "compute_mean_curves = \<lparr>ignore_result = True, run_subtask = (\<lambda>kw. PNone)\<rparr>"

definition compute_quantile_curves :: "'s task" where
  "compute_quantile_curves = \<lparr>ignore_result = True, run_subtask = (\<lambda>kw. PNone)\<rparr>"

text \<open>The body of \<^verbatim>\<open>for realization in xrange(0, realizations)\<close> in \<open>do_curves\<close>.\<close>

fun do_curves_loop ::
  "'s env \<Rightarrow> 's job_ctxt \<Rightarrow> 's list \<Rightarrow> 's handler option \<Rightarrow> 's task \<Rightarrow> nat list \<Rightarrow>
   rng \<Rightarrow> rng \<Rightarrow> 's world \<Rightarrow> (error + unit) \<times> 's world" where
  "do_curves_loop env ctx sites serializer the_task [] source_model_generator gmpe_generator w =
     (Inr (), w)"
| "do_curves_loop env ctx sites serializer the_task (realization # rest)
       source_model_generator gmpe_generator w =
     (let w1 = pk_inc ''hcls_crealization'' w;
          d1 = getrandbits32 env source_model_generator;
          w2 = store_source_model (fst d1) w1;
          d2 = getrandbits32 env (snd d1);
          w3 = store_gmpe_map (fst d2) w2;
          tf_args = [(''job_id'', PInt (job_id ctx)), (''realization'', PInt (int realization))];
          ath_args = [(''sites'', PSeq (map PSite sites)),
                      (''realization'', PInt (int realization))]
      in case distribute the_task (''sites'', map (\<lambda>s. PSeq [PSite s]) sites) (Some tf_args)
                serializer (Some ath_args) False w3 of
           (Inl e, w4) \<Rightarrow> (Inl e, w4)
         | (Inr r, w4) \<Rightarrow>
             do_curves_loop env ctx sites serializer the_task rest (snd d2) gmpe_generator w4)"

definition do_curves ::
  "'s env \<Rightarrow> 's job_ctxt \<Rightarrow> 's list \<Rightarrow> nat \<Rightarrow> 's handler option \<Rightarrow> 's task \<Rightarrow> 's world \<Rightarrow>
   (error + unit) \<times> 's world" where
  "do_curves env ctx sites realizations serializer the_task w =
     (let source_model_generator = Random_seed (SOURCE_MODEL_LT_RANDOM_SEED ctx);
          gmpe_generator = Random_seed (GMPE_LT_RANDOM_SEED ctx);
          w1 = pk_set ''hcls_crealization'' 0 w
      in do_curves_loop env ctx sites serializer the_task [0..<realizations]
           source_model_generator gmpe_generator w1)"

type_synonym 's map_serializer = "'s list \<Rightarrow> rat list \<Rightarrow> 's world \<Rightarrow> 's world"

definition do_means ::
  "'s env \<Rightarrow> 's job_ctxt \<Rightarrow> 's list \<Rightarrow> nat \<Rightarrow> 's handler option \<Rightarrow> 's task \<Rightarrow>
   (int \<Rightarrow> 's list \<Rightarrow> rat list \<Rightarrow> 's world \<Rightarrow> 's world) option \<Rightarrow>
   's map_serializer option \<Rightarrow> 's world \<Rightarrow> (error + unit) \<times> 's world" where
  "do_means env ctx sites realizations curve_serializer curve_task map_func map_serializer w =
     (if \<not> COMPUTE_MEAN_HAZARD_CURVE ctx then (Inr (), w)
      else
        (let tf_args = [(''job_id'', PInt (job_id ctx)),
                        (''realizations'', PInt (int realizations))];
             ath_args = [(''sites'', PSeq (map PSite sites))]
         in case distribute curve_task (''sites'', map (\<lambda>s. PSeq [PSite s]) sites)
                   (Some tf_args) curve_serializer (Some ath_args) False w of
              (Inl e, w1) \<Rightarrow> (Inl e, w1)
            | (Inr r, w1) \<Rightarrow>
                if poes_hazard_maps ctx \<noteq> [] then
                  (case map_func of
                     None \<Rightarrow>
                       (Inl (AssertionError ''No calculation function for mean hazard maps set''),
                        w1)
                   | Some mf \<Rightarrow>
                       (case map_serializer of
                          None \<Rightarrow>
                            (Inl (AssertionError ''No serializer for the mean hazard maps set''),
                             w1)
                        | Some ms \<Rightarrow>
                            (Inr (), ms sites (poes_hazard_maps ctx)
                                       (mf (job_id ctx) sites (poes_hazard_maps ctx) w1))))
                else (Inr (), w1)))"

definition do_quantiles ::
  "'s env \<Rightarrow> 's job_ctxt \<Rightarrow> 's list \<Rightarrow> nat \<Rightarrow> rat list \<Rightarrow> 's handler option \<Rightarrow> 's task \<Rightarrow>
   (int \<Rightarrow> 's list \<Rightarrow> rat list \<Rightarrow> rat list \<Rightarrow> 's world \<Rightarrow> 's world) option \<Rightarrow>
   ('s list \<Rightarrow> rat list \<Rightarrow> rat \<Rightarrow> 's world \<Rightarrow> 's world) option \<Rightarrow> 's world \<Rightarrow>
   (error + unit) \<times> 's world" where
  "do_quantiles env ctx sites realizations quantiles curve_serializer curve_task map_func
       map_serializer w =
     (if quantiles = [] then (Inr (), w)
      else
        (let tf_args = [(''job_id'', PInt (job_id ctx)),
                        (''realizations'', PInt (int realizations)),
                        (''quantiles'', PSeq (map PFloat quantiles))];
             ath_args = [(''sites'', PSeq (map PSite sites)),
                         (''quantiles'', PSeq (map PFloat quantiles))]
         in case distribute curve_task (''sites'', map (\<lambda>s. PSeq [PSite s]) sites)
                   (Some tf_args) curve_serializer (Some ath_args) False w of
              (Inl e, w1) \<Rightarrow> (Inl e, w1)
            | (Inr r, w1) \<Rightarrow>
                if poes_hazard_maps ctx \<noteq> [] then
                  (case map_func of
                     None \<Rightarrow>
                       (Inl (AssertionError ''No calculation function for quantile maps set.''),
                        w1)
                   | Some mf \<Rightarrow>
                       (case map_serializer of
                          None \<Rightarrow>
                            (Inl (AssertionError ''No serializer for the quantile maps set.''),
                             w1)
                        | Some ms \<Rightarrow>
                            (Inr (), fold (\<lambda>quantile. ms sites (poes_hazard_maps ctx) quantile)
                                       quantiles
                                       (mf (job_id ctx) sites quantiles (poes_hazard_maps ctx)
                                          w1))))
                else (Inr (), w1)))"

text \<open>
  Calling a bound method with \<^verbatim>\<open>**ath_args\<close>: the keywords must be exactly the
  method's parameters, otherwise Python raises a \<^verbatim>\<open>TypeError\<close>.
\<close>

definition bind_kwargs :: "string list \<Rightarrow> 's kwargs \<Rightarrow> 's pyval list option" where
  "bind_kwargs names kw =
     (if distinct (map fst kw) \<and> set (map fst kw) = set names
      then those (map (map_of kw) names) else None)"

definition sites_of :: "'s pyval \<Rightarrow> 's list option" where
  "sites_of v =
     (case v of
        PSeq xs \<Rightarrow> those (map (\<lambda>x. case x of PSite s \<Rightarrow> Some s | _ \<Rightarrow> None) xs)
      | _ \<Rightarrow> None)"

definition floats_of :: "'s pyval \<Rightarrow> rat list option" where
  "floats_of v =
     (case v of
        PSeq xs \<Rightarrow> those (map (\<lambda>x. case x of PFloat q \<Rightarrow> Some q | _ \<Rightarrow> None) xs)
      | _ \<Rightarrow> None)"

definition returning_None :: "(error + unit) \<times> 's world \<Rightarrow> (error + 's pyval) \<times> 's world" where
  "returning_None r = (case r of (Inl e, w) \<Rightarrow> (Inl e, w) | (Inr u, w) \<Rightarrow> (Inr PNone, w))"

definition curve_of_realization_handler :: "nat \<Rightarrow> 's env \<Rightarrow> 's job_ctxt \<Rightarrow> 's handler" where
  "curve_of_realization_handler fuel env ctx kw w =
     (case bind_kwargs [''sites'', ''realization''] kw of
        Some [ss, PInt r] \<Rightarrow>
          (case sites_of ss of
             Some sites \<Rightarrow>
               returning_None
                 (serialize_hazard_curve_of_realization fuel env ctx sites (nat r) w)
           | None \<Rightarrow> (Inl TypeError, w))
      | _ \<Rightarrow> (Inl TypeError, w))"

definition mean_curves_handler :: "nat \<Rightarrow> 's env \<Rightarrow> 's job_ctxt \<Rightarrow> 's handler" where
  "mean_curves_handler fuel env ctx kw w =
     (case bind_kwargs [''sites''] kw of
        Some [ss] \<Rightarrow>
          (case sites_of ss of
             Some sites \<Rightarrow> returning_None (serialize_mean_hazard_curves fuel env ctx sites w)
           | None \<Rightarrow> (Inl TypeError, w))
      | _ \<Rightarrow> (Inl TypeError, w))"

definition quantile_curves_handler :: "nat \<Rightarrow> 's env \<Rightarrow> 's job_ctxt \<Rightarrow> 's handler" where
  "quantile_curves_handler fuel env ctx kw w =
     (case bind_kwargs [''sites'', ''quantiles''] kw of
        Some [ss, qs] \<Rightarrow>
          (case (sites_of ss, floats_of qs) of
             (Some sites, Some quantiles) \<Rightarrow>
               returning_None (serialize_quantile_hazard_curves fuel env ctx sites quantiles w)
           | _ \<Rightarrow> (Inl TypeError, w))
      | _ \<Rightarrow> (Inl TypeError, w))"

text \<open>
  \<^verbatim>\<open>range(0, len(sites), block_size)\<close> and \<^verbatim>\<open>sites[start:end]\<close> as Python
  computes them.
\<close>

definition py_range :: "nat \<Rightarrow> int \<Rightarrow> error + nat list" where
  "py_range n step =
     (if step = 0 then Inl ValueError
      else if step < 0 then Inr []
      else Inr (map (\<lambda>i. i * nat step) [0..<(n + nat step - 1) div nat step]))"

definition clamp_index :: "nat \<Rightarrow> int \<Rightarrow> nat" where
  "clamp_index n i = (if i < 0 then nat (max 0 (int n + i)) else min n (nat i))"

definition py_slice :: "'a list \<Rightarrow> int \<Rightarrow> int \<Rightarrow> 'a list" where
  "py_slice xs a b =
     (let lo = clamp_index (length xs) a; hi = clamp_index (length xs) b
      in take (hi - lo) (drop lo xs))"

definition enter :: "phase \<Rightarrow> nat \<Rightarrow> 's list \<Rightarrow> 's world \<Rightarrow> 's world" where
  "enter ph start data w = w\<lparr>calls := calls w @ [(ph, start, data)]\<rparr>"

text \<open>The body of \<^verbatim>\<open>for start in blocks\<close> in \<open>execute\<close>.\<close>

fun execute_blocks ::
  "nat \<Rightarrow> 's env \<Rightarrow> 's job_ctxt \<Rightarrow> 's list \<Rightarrow> nat \<Rightarrow> int \<Rightarrow> nat list \<Rightarrow> 's world \<Rightarrow>
   (error + unit) \<times> 's world" where
  "execute_blocks fuel env ctx sites realizations block_size [] w = (Inr (), w)"
| "execute_blocks fuel env ctx sites realizations block_size (start # rest) w =
     (let w1 = pk_inc ''cblock'' w;
          end_index = int start + block_size;
          data = py_slice sites (int start) end_index
      in case do_curves env ctx data realizations
                (Some (curve_of_realization_handler fuel env ctx)) compute_hazard_curve
                (enter Curves start data w1) of
           (Inl e, w2) \<Rightarrow> (Inl e, w2)
         | (Inr u, w2) \<Rightarrow>
             (case do_means env ctx data realizations
                     (Some (mean_curves_handler fuel env ctx)) compute_mean_curves
                     (Some (compute_mean_hazard_maps env))
                     (Some (serialize_mean_hazard_map env ctx))
                     (enter Means start data w2) of
                (Inl e, w3) \<Rightarrow> (Inl e, w3)
              | (Inr u, w3) \<Rightarrow>
                  (let quantiles = quantile_levels ctx
                   in case do_quantiles env ctx data realizations quantiles
                             (Some (quantile_curves_handler fuel env ctx))
                             compute_quantile_curves
                             (Some (compute_quantile_hazard_maps env))
                             (Some (serialize_quantile_hazard_map env ctx))
                             (enter Quantiles start data w3) of
                        (Inl e, w4) \<Rightarrow> (Inl e, w4)
                      | (Inr u, w4) \<Rightarrow>
                          execute_blocks fuel env ctx sites realizations block_size rest
                            (release_data_from_kvs env (job_id ctx) data realizations
                               quantiles (poes_hazard_maps ctx)
                               (enter Purge start data w4)))))"

definition execute :: "nat \<Rightarrow> 's env \<Rightarrow> 's job_ctxt \<Rightarrow> 's world \<Rightarrow> (error + unit) \<times> 's world" where
  "execute fuel env ctx w =
     (let sites = sites_to_compute ctx;
          realizations = NUMBER_OF_LOGIC_TREE_SAMPLES ctx;
          w1 = pk_set ''hcls_sites'' (int (length sites)) w;
          w2 = pk_set ''hcls_realizations'' (int realizations) w1;
          block_size = hazard_block_size ctx;
          w3 = pk_set ''block_size'' block_size w2
      in case py_range (length sites) block_size of
           Inl e \<Rightarrow> (Inl e, w3)
         | Inr blocks \<Rightarrow>
             execute_blocks fuel env ctx sites realizations block_size blocks
               (pk_set ''cblock'' 0 (pk_set ''blocks'' (int (length blocks)) w3)))"

section \<open>Notions used to state the properties\<close>


text \<open>The batches of sites handed to the curve writer, in order.\<close>

fun serialized :: "'s event list \<Rightarrow> 's list list" where
  "serialized [] = []"
| "serialized (SerializeCurves u hc_data c # es) = map fst hc_data # serialized es"
| "serialized (e # es) = serialized es"

text \<open>
  A monitor for the events of one polling loop. A cycle starts with the check of
  the failure counters; only a check that found none may be followed by the sleep,
  only the sleep opens the cache reads of the cycle, and after a check that found a
  failure no event is accepted any more.
\<close>

datatype monitor_state = Idle | Checked | Reading | Aborted

fun guarded :: "monitor_state \<Rightarrow> 's event list \<Rightarrow> bool" where
  "guarded m [] = True"
| "guarded m (FailureCheck fs # es) =
     ((m = Idle \<or> m = Reading) \<and> guarded (if fs = [] then Checked else Aborted) es)"
| "guarded m (Sleep p # es) = (m = Checked \<and> guarded Reading es)"
| "guarded m (CacheRead k # es) = (m = Reading \<and> guarded Reading es)"
| "guarded m (SerializeCurves u hc_data c # es) = (m = Reading \<and> guarded Idle es)"
| "guarded m (e # es) = False"

text \<open>The seeds handed to the logic-tree samplers, in order.\<close>

fun seed_events :: "'s event list \<Rightarrow> 's event list" where
  "seed_events [] = []"
| "seed_events (StoreSourceModel n # es) = StoreSourceModel n # seed_events es"
| "seed_events (StoreGmpeMap n # es) = StoreGmpeMap n # seed_events es"
| "seed_events (e # es) = seed_events es"

text \<open>
  The seeds one call of \<open>do_curves\<close> hands out for the first \<open>m\<close> realizations:
  consecutive draws of the stream seeded with \<^verbatim>\<open>SOURCE_MODEL_LT_RANDOM_SEED\<close>.
\<close>

definition seeds_of_call :: "'s env \<Rightarrow> 's job_ctxt \<Rightarrow> nat \<Rightarrow> 's event list" where
  "seeds_of_call env ctx m =
     concat (map (\<lambda>r.
       [StoreSourceModel (random_stream env (SOURCE_MODEL_LT_RANDOM_SEED ctx) (2 * r) mod 2 ^ 32),
        StoreGmpeMap (random_stream env (SOURCE_MODEL_LT_RANDOM_SEED ctx) (2 * r + 1) mod 2 ^ 32)])
       [0..<m])"

text \<open>The blocks of a site list: the start offsets and slices \<open>execute\<close> works through.\<close>

definition block_starts :: "nat \<Rightarrow> nat \<Rightarrow> nat list" where
  "block_starts n b = map (\<lambda>i. i * b) [0..<(n + b - 1) div b]"

definition block_of :: "'s list \<Rightarrow> nat \<Rightarrow> nat \<Rightarrow> 's list" where
  "block_of sites b start = take b (drop start sites)"

definition phases_of_block :: "'s list \<Rightarrow> nat \<Rightarrow> nat \<Rightarrow> (phase \<times> nat \<times> 's list) list" where
  "phases_of_block sites b start =
     map (\<lambda>ph. (ph, start, block_of sites b start)) [Curves, Means, Quantiles, Purge]"

text \<open>A world to start from: nothing cached, counted, submitted or logged.\<close>

definition empty_world :: "nat world" where
  "empty_world =
     \<lparr>clock = 0, kvs = (\<lambda>k. None), counters = (\<lambda>k. None), submitted = [], log = [],
      calls = [], kvs_keys_purged = None\<rparr>"

text \<open>The keyword arguments of the subtask that \<open>distribute\<close> creates for an item.\<close>

definition kwargs_for :: "string \<Rightarrow> 's kwargs option \<Rightarrow> 's pyval \<Rightarrow> 's kwargs" where
  "kwargs_for name tf_args item =
     (case tf_args of
        Some args \<Rightarrow> if args \<noteq> [] then AList.update name item args else [(name, item)]
      | None \<Rightarrow> [(name, item)])"




text \<open>
  What the events \<open>tr\<close> of a polling loop satisfy when the loop is entered with
  the sites \<open>A\<close> accounted for and ends with \<open>res\<close>.
\<close>

definition poll_ok ::
  "'s list \<Rightarrow> 's set \<Rightarrow> error + unit \<Rightarrow> 's event list \<Rightarrow> bool" where
  "poll_ok sites A res tr \<longleftrightarrow>
     guarded Idle tr \<and> guarded Reading tr \<and>
     distinct (concat (serialized tr)) \<and>
     set (concat (serialized tr)) \<subseteq> set sites - A \<and>
     [] \<notin> set (serialized tr) \<and>
     (res = Inr () \<longrightarrow> A \<union> set (concat (serialized tr)) = set sites) \<and>
     (\<forall>fs. fs \<noteq> [] \<and> FailureCheck fs \<in> set tr \<longrightarrow>
        res = Inl (RuntimeError fs) \<and> last tr = FailureCheck fs)"

text \<open>
  An environment for the examples: sites are numbers, keys are built from the
  prefix of the template and the hash in unary, no failure is ever recorded, and
  the curves of the sites 1 and 2 of realization 0 arrive at the instants 0 and 1.
  In \<open>failing_env\<close> a failure is recorded at the instant 1.
\<close>

definition example_env :: "nat env" where
  "example_env =
     \<lparr>hash_site = int,
      random_stream = (\<lambda>seed i. nat seed * 1000 + i),
      hazard_curve_poes_key_template =
        (\<lambda>job r h. ''curve-'' @ replicate r (CHR ''r'') @ ''-'' @ replicate (nat h) (CHR ''s'')),
      mean_hazard_curve_key_template = (\<lambda>job h. ''mean-'' @ replicate (nat h) (CHR ''s'')),
      quantile_hazard_curve_key_template =
        (\<lambda>job q h. ''quantile-'' @ replicate (nat h) (CHR ''s'')),
      mean_hazard_map_key_template = (\<lambda>job p h. ''meanmap-'' @ replicate (nat h) (CHR ''s'')),
      quantile_hazard_map_key_template =
        (\<lambda>job p q h. ''quantilemap-'' @ replicate (nat h) (CHR ''s'')),
      failure_counters = (\<lambda>t. []),
      arrivals = (\<lambda>t. if t = 0 then [(''curve--s'', [1 / 2])]
                      else if t = 1 then [(''curve--ss'', [1 / 4])] else [])\<rparr>"


text \<open>The curves of realization 0 of the sites 1 and 2 are polled in both environments.\<close>

definition example_run :: "(error + unit) \<times> nat world" where
  "example_run =
     serialize_hazard_curve 3 example_env (hazard_curve_poes_key_template example_env 7 0)
       (EndBranchLabel 0) [1, 2] empty_world"


text \<open>
  A step from one world to another is quiet when it enters no phase and hands no
  seed to the logic-tree samplers; a handler is quiet when all it does is.
\<close>

definition quiet :: "'s world \<Rightarrow> 's world \<Rightarrow> bool" where
  "quiet w w' \<longleftrightarrow> calls w' = calls w \<and> seed_events (log w') = seed_events (log w)"

definition quiet_handler :: "'s handler \<Rightarrow> bool" where
  "quiet_handler h \<longleftrightarrow> (\<forall>kw w r w'. h kw w = (r, w') \<longrightarrow> quiet w w')"

text \<open>
  The seeds handed out in \<open>m\<close> rounds of the loop of \<open>do_curves\<close> when the
  source-model generator is in the state \<open>g\<close>.
\<close>

definition draws :: "'s env \<Rightarrow> rng \<Rightarrow> nat \<Rightarrow> 's event list" where
  "draws env g m =
     concat (map (\<lambda>r.
       [StoreSourceModel (random_stream env (rng_seed g) (rng_drawn g + 2 * r) mod 2 ^ 32),
        StoreGmpeMap (random_stream env (rng_seed g) (rng_drawn g + 2 * r + 1) mod 2 ^ 32)])
       [0..<m])"

text \<open>
  A job for the examples: the sites 1 and 2 in blocks of one site, one realization,
  no mean curves, no quantiles, no maps, and two different seeds.
\<close>

definition example_ctxt :: "nat job_ctxt" where
  "example_ctxt =
     \<lparr>job_id = 7, sites_to_compute = [1, 2], NUMBER_OF_LOGIC_TREE_SAMPLES = 1,
      SOURCE_MODEL_LT_RANDOM_SEED = 1, GMPE_LT_RANDOM_SEED = 2,
      COMPUTE_MEAN_HAZARD_CURVE = False, quantile_levels = [], poes_hazard_maps = [],
      hazard_block_size = 1\<rparr>"

section \<open>The back-off of the polling loop\<close>











section \<open>The task distributor\<close>

lemma make_subtasks_map: "make_subtasks name data tf_args = map (kwargs_for name tf_args) data"
  by (simp add: make_subtasks_def kwargs_for_def split: option.splits)

lemma apply_async_Nil: "apply_async [] w = w"
  by (simp add: apply_async_def)



text \<open>
  C1, as stated, fails: \<open>distribute\<close> has no check of its input. With an empty item
  sequence a result-collecting task makes it return the empty list, and a task whose
  results are ignored makes it return \<^verbatim>\<open>None\<close>; no error is raised.
\<close>

theorem distribute_empty_returns:
  "fst (distribute \<lparr>ignore_result = False, run_subtask = (\<lambda>kw. PNone)\<rparr> (''sites'', [])
          None None None False empty_world) = Inr (PSeq []) \<and>
   fst (distribute \<lparr>ignore_result = True, run_subtask = (\<lambda>kw. PNone)\<rparr> (''sites'', [])
          None None None False empty_world) = Inr PNone"
  by (simp add: distribute_def make_subtasks_def apply_async_def join_native_def)

text \<open>
  C1, amended. For an empty item sequence, in either mode, \<open>distribute\<close> hands no
  subtask to the work queue and raises no error of its own: with a
  result-collecting task it returns the empty list and leaves the world as it was;
  with a task whose results are ignored it returns \<^verbatim>\<open>None\<close>, or, when a handler
  is given, whatever the handler does in the unchanged world.
\<close>

theorem distribute_empty:
  "distribute t (name, []) tf_args ath ath_args flatten_results w =
     (if ignore_result t then
        (case ath of
           None \<Rightarrow> (Inr PNone, w)
         | Some h \<Rightarrow> h (case ath_args of None \<Rightarrow> [] | Some a \<Rightarrow> a) w)
      else (Inr (PSeq []), w))"
  by (simp add: distribute_def make_subtasks_map apply_async_Nil join_native_def
      split: option.splits)




section \<open>Purging a block\<close>





lemma frame_purge_keys:
  "log (purge_keys keys w) = log w" "calls (purge_keys keys w) = calls w"
  "clock (purge_keys keys w) = clock w" "counters (purge_keys keys w) = counters w"
  "submitted (purge_keys keys w) = submitted w"
  by (simp_all add: purge_keys_def kvs_delete_def Let_def split: option.splits)

lemma frame_fold_purge:
  "log (fold (\<lambda>x. purge_keys (f x)) xs w) = log w"
  "calls (fold (\<lambda>x. purge_keys (f x)) xs w) = calls w"
  "clock (fold (\<lambda>x. purge_keys (f x)) xs w) = clock w"
  "counters (fold (\<lambda>x. purge_keys (f x)) xs w) = counters w"
  "submitted (fold (\<lambda>x. purge_keys (f x)) xs w) = submitted w"
  by (induction xs arbitrary: w) (simp_all add: frame_purge_keys)

lemma frame_release:
  "log (release_data_from_kvs env job sites realizations quantiles poes w) = log w"
  "calls (release_data_from_kvs env job sites realizations quantiles poes w) = calls w"
  by (simp_all add: release_data_from_kvs_def Let_def frame_fold_purge frame_purge_keys)



section \<open>The polling loop\<close>

lemma log_emit: "log (emit e w) = log w @ [e]"
  by (simp add: emit_def)

lemma log_tick: "log (tick env w) = log w"
  by (simp add: tick_def)

lemma scan_sites_spec:
  "distinct sites \<Longrightarrow>
   scan_sites key sites (hc, acc, n, w) = (hc', acc', n', w') \<Longrightarrow>
   \<exists>new rd. hc' = hc @ new \<and> distinct (map fst new) \<and> set (map fst new) \<subseteq> set sites - acc \<and>
     acc' = acc \<union> set (map fst new) \<and> n' = n + length new \<and>
     log w' = log w @ map CacheRead rd"
proof (induction sites arbitrary: hc acc n w)
  case Nil
  then show ?case by (auto intro: exI [of _ "[]"])
next
  case (Cons site rest)
  show ?case
  proof (cases "site \<in> acc")
    case True
    with Cons.prems have "scan_sites key rest (hc, acc, n, w) = (hc', acc', n', w')" by simp
    from Cons.IH [OF _ this] Cons.prems(1) obtain new rd where
      "hc' = hc @ new" "distinct (map fst new)" "set (map fst new) \<subseteq> set rest - acc"
      "acc' = acc \<union> set (map fst new)" "n' = n + length new" "log w' = log w @ map CacheRead rd"
      by auto
    then show ?thesis by (intro exI [of _ new] exI [of _ rd]) auto
  next
    case False
    show ?thesis
    proof (cases "kvs w (key site)")
      case None
      with False Cons.prems
      have "scan_sites key rest (hc, acc, n, emit (CacheRead (key site)) w) = (hc', acc', n', w')"
        by (simp add: get_value_json_decoded_def)
      from Cons.IH [OF _ this] Cons.prems(1) obtain new rd where
        "hc' = hc @ new" "distinct (map fst new)" "set (map fst new) \<subseteq> set rest - acc"
        "acc' = acc \<union> set (map fst new)" "n' = n + length new"
        "log w' = log (emit (CacheRead (key site)) w) @ map CacheRead rd"
        by auto
      then show ?thesis
        by (intro exI [of _ new] exI [of _ "key site # rd"]) (auto simp: log_emit)
    next
      case (Some v)
      with False Cons.prems
      have "scan_sites key rest (hc @ [(site, v)], insert site acc, n + 1,
               emit (CacheRead (key site)) w) = (hc', acc', n', w')"
        by (simp add: get_value_json_decoded_def)
      from Cons.IH [OF _ this] Cons.prems(1) obtain new rd where
        "hc' = (hc @ [(site, v)]) @ new" "distinct (map fst new)"
        "set (map fst new) \<subseteq> set rest - insert site acc"
        "acc' = insert site acc \<union> set (map fst new)" "n' = n + 1 + length new"
        "log w' = log (emit (CacheRead (key site)) w) @ map CacheRead rd"
        by auto
      with False Cons.prems(1) show ?thesis
        by (intro exI [of _ "(site, v) # new"] exI [of _ "key site # rd"])
           (auto simp: log_emit)
    qed
  qed
qed

lemma guarded_reads: "guarded Reading (map CacheRead rd @ es) = guarded Reading es"
  by (induction rd) auto

lemma serialized_reads: "serialized (map CacheRead rd @ es) = serialized es"
  by (induction rd) auto

lemma guarded_reads_only: "guarded Reading (map CacheRead rd)"
  using guarded_reads [of rd "[]"] by simp

lemma serialized_reads_only: "serialized (map CacheRead rd) = []"
  using serialized_reads [of rd "[]"] by simp

lemma poll_ok_Nil: "A \<subseteq> set sites \<Longrightarrow> (res = Inr () \<longrightarrow> A = set sites) \<Longrightarrow> poll_ok sites A res []"
  by (simp add: poll_ok_def)

lemma poll_ok_abort: "fs \<noteq> [] \<Longrightarrow> poll_ok sites A (Inl (RuntimeError fs)) [FailureCheck fs]"
  by (simp add: poll_ok_def)

lemma poll_ok_empty_cycle:
  "poll_ok sites A res tr \<Longrightarrow>
   poll_ok sites A res (FailureCheck [] # Sleep p # map CacheRead rd @ tr)"
  by (cases "tr = []")
     (auto simp add: poll_ok_def guarded_reads serialized_reads guarded_reads_only
        serialized_reads_only)

lemma poll_ok_batch_cycle:
  assumes "poll_ok sites (A \<union> set (map fst new)) res tr"
    and "new \<noteq> []" "distinct (map fst new)" "set (map fst new) \<subseteq> set sites - A"
  shows "poll_ok sites A res
           (FailureCheck [] # Sleep p # map CacheRead rd @ SerializeCurves u new c # tr)"
proof -
  have l: "last (FailureCheck [] # Sleep p # map CacheRead rd @ SerializeCurves u new c # tr)
      = (if tr = [] then SerializeCurves u new c else last tr)"
    by simp
  from assms l show ?thesis
    by (cases "tr = []") (auto simp add: poll_ok_def guarded_reads serialized_reads)
qed

lemma poll_spec:
  "distinct sites \<Longrightarrow> accounted_for pv \<subseteq> set sites \<Longrightarrow>
   poll fuel env kt upd sites pv w = (res, w') \<Longrightarrow>
   \<exists>tr. log w' = log w @ tr \<and> poll_ok sites (accounted_for pv) res tr"
proof (induction fuel arbitrary: pv w)
  case 0
  then have "w' = w" "res = Inr () \<longrightarrow> accounted_for pv = set sites"
    by (auto split: if_splits)
  with "0.prems"(2) show ?case by (auto intro: poll_ok_Nil)
next
  case (Suc n)
  let ?A = "accounted_for pv"
  show ?case
  proof (cases "?A = set sites")
    case True
    with Suc.prems have "w' = w" "res = Inr ()" by auto
    with True show ?thesis by (auto intro: poll_ok_Nil)
  next
    case unfinished: False
    let ?fs = "failure_counters env (clock w)"
    show ?thesis
    proof (cases "?fs = []")
      case False
      with unfinished Suc.prems(3)
      have "res = Inl (RuntimeError ?fs)" "w' = emit (FailureCheck ?fs) w"
        by (auto simp add: Let_def)
      with False show ?thesis by (auto simp add: log_emit intro: poll_ok_abort)
    next
      case clean: True
      let ?w2 = "tick env (emit (Sleep (pause pv)) (emit (FailureCheck []) w))"
      obtain hc acc rf w3 where
        sc: "scan_sites (\<lambda>site. kt (hash_site env site)) sites ([], ?A, 0, ?w2) = (hc, acc, rf, w3)"
        by (metis prod_cases4)
      from scan_sites_spec [OF Suc.prems(1) sc] obtain rd where
        new: "distinct (map fst hc)" "set (map fst hc) \<subseteq> set sites - ?A"
          "acc = ?A \<union> set (map fst hc)" "rf = length hc"
          "log w3 = log w @ FailureCheck [] # Sleep (pause pv) # map CacheRead rd"
        by (auto simp add: log_emit log_tick)
      have sub: "acc \<subseteq> set sites" using new(2,3) Suc.prems(2) by auto
      let ?p = "update_pause rf (pause pv, pauses pv)"
      show ?thesis
      proof (cases "rf = 0")
        case True
        let ?pv' = "pv\<lparr>accounted_for := acc, pause := fst ?p, pauses := snd ?p\<rparr>"
        from True unfinished clean sc Suc.prems(3)
        have "poll n env kt upd sites ?pv' w3 = (res, w')"
          by (simp add: Let_def)
        from Suc.IH [OF Suc.prems(1) _ this] sub obtain tr where
          tr: "log w' = log w3 @ tr" "poll_ok sites acc res tr"
          by auto
        from True new(3,4) have "acc = ?A" by simp
        with tr(2) have "poll_ok sites ?A res
            (FailureCheck [] # Sleep (pause pv) # map CacheRead rd @ tr)"
          by (simp add: poll_ok_empty_cycle)
        with tr(1) new(5) show ?thesis by auto
      next
        case False
        let ?c = "(ctx_xsc pv)\<lparr>i_next := length hc\<rparr>"
        let ?pv' = "pv\<lparr>accounted_for := acc, pause := fst ?p, pauses := snd ?p,
                        ctx_xsc := (ctx_xsc pv)\<lparr>i_done := i_done (ctx_xsc pv) + length hc\<rparr>\<rparr>"
        from False unfinished clean sc Suc.prems(3)
        have "poll n env kt upd sites ?pv' (emit (SerializeCurves upd hc ?c) w3) = (res, w')"
          by (simp add: Let_def)
        from Suc.IH [OF Suc.prems(1) _ this] sub obtain tr where
          tr: "log w' = log (emit (SerializeCurves upd hc ?c) w3) @ tr" "poll_ok sites acc res tr"
          by auto
        from False new(4) have ne: "hc \<noteq> []" by auto
        have "poll_ok sites (?A \<union> set (map fst hc)) res tr"
          using tr(2) unfolding new(3) .
        then have "poll_ok sites ?A res
            (FailureCheck [] # Sleep (pause pv) # map CacheRead rd @ SerializeCurves upd hc ?c # tr)"
          using ne new(1,2) by (rule poll_ok_batch_cycle)
        with tr(1) new(5) show ?thesis by (auto simp add: log_emit)
      qed
    qed
  qed
qed

lemma poll_abort_first:
  "accounted_for pv \<noteq> set sites \<Longrightarrow> failure_counters env (clock w) \<noteq> [] \<Longrightarrow>
   poll (Suc n) env kt upd sites pv w =
     (Inl (RuntimeError (failure_counters env (clock w))),
      emit (FailureCheck (failure_counters env (clock w))) w)"
  by (simp add: Let_def)


lemma distinct_concat_disjoint:
  "distinct (concat bs) \<Longrightarrow> i < j \<Longrightarrow> j < length bs \<Longrightarrow> set (bs ! i) \<inter> set (bs ! j) = {}"
proof (induction bs arbitrary: i j)
  case Nil
  then show ?case by simp
next
  case (Cons b bs)
  show ?case
  proof (cases i)
    case 0
    with Cons.prems obtain j' where j: "j = Suc j'" "j' < length bs" by (cases j) auto
    from Cons.prems(1) have "set b \<inter> set ys = {}" if "ys \<in> set bs" for ys
      using that by auto
    from this [of "bs ! j'"] j 0 show ?thesis by simp
  next
    case (Suc i')
    with Cons.prems obtain j' where j: "j = Suc j'" "i' < j'" "j' < length bs" by (cases j) auto
    with Cons.IH [of i' j'] Cons.prems(1) Suc show ?thesis by simp
  qed
qed

lemma serialize_poll_ok:
  "serialize_hazard_curve fuel env kt upd sites w = (res, w') \<Longrightarrow>
   \<exists>tr. log w' = log w @ tr \<and> poll_ok (remdups sites) {} res tr"
  unfolding serialize_hazard_curve_def Let_def
  by (drule poll_spec [rotated 2]) simp_all

text \<open>
  C5. Within one invocation of \<open>serialize_hazard_curve\<close> the batches handed to
  the curve writer hold every site at most once: no batch repeats a site and two
  batches share none. All of them are expected sites, and when the invocation
  returns the batches together are exactly the expected sites.
\<close>

theorem batches_partition_sites:
  "serialize_hazard_curve fuel env kt upd sites w = (res, w') \<Longrightarrow>
   \<exists>tr. log w' = log w @ tr \<and>
     distinct (concat (serialized tr)) \<and>
     (\<forall>i j. i < j \<and> j < length (serialized tr) \<longrightarrow>
        set (serialized tr ! i) \<inter> set (serialized tr ! j) = {}) \<and>
     set (concat (serialized tr)) \<subseteq> set sites \<and>
     (res = Inr () \<longrightarrow> set (concat (serialized tr)) = set sites)"
proof -
  assume "serialize_hazard_curve fuel env kt upd sites w = (res, w')"
  from serialize_poll_ok [OF this] obtain tr where
    tr: "log w' = log w @ tr" "poll_ok (remdups sites) {} res tr"
    by blast
  from tr(2) have d: "distinct (concat (serialized tr))"
    and s: "set (concat (serialized tr)) \<subseteq> set sites"
    and f: "res = Inr () \<longrightarrow> set (concat (serialized tr)) = set sites"
    by (auto simp add: poll_ok_def)
  have "\<forall>i j. i < j \<and> j < length (serialized tr) \<longrightarrow>
        set (serialized tr ! i) \<inter> set (serialized tr ! j) = {}"
    using distinct_concat_disjoint [OF d] by blast
  with tr(1) d s f show ?thesis by blast
qed


lemma example_run_result:
  "fst example_run = Inr ()" "serialized (log (snd example_run)) = [[1], [2]]"
  by (simp_all add: example_run_def serialize_hazard_curve_def example_env_def empty_world_def
      eval_nat_numeral Let_def emit_def tick_def get_value_json_decoded_def pk_get_def
      initial_pause_def pgen_next_def pause_generator_def min_pause_def update_pause_def
      insert_commute)



theorem batches_partition_sites_witness:
  "fst example_run = Inr () \<and>
   (\<exists>tr. log (snd example_run) = log empty_world @ tr \<and>
      distinct (concat (serialized tr)) \<and>
      (\<forall>i j. i < j \<and> j < length (serialized tr) \<longrightarrow>
         set (serialized tr ! i) \<inter> set (serialized tr ! j) = {}) \<and>
      set (concat (serialized tr)) \<subseteq> set [1, 2] \<and>
      set (concat (serialized tr)) = set [1, 2])"
proof -
  have run: "serialize_hazard_curve 3 example_env (hazard_curve_poes_key_template example_env 7 0)
       (EndBranchLabel 0) [1, 2] empty_world = (Inr (), snd example_run)"
    using example_run_result(1) by (simp add: example_run_def prod_eq_iff)
  from batches_partition_sites [OF run] example_run_result(1) show ?thesis by simp
qed


section \<open>The phases and the block scheduler\<close>

lemma seed_events_append: "seed_events (xs @ ys) = seed_events xs @ seed_events ys"
  by (induction xs rule: seed_events.induct) auto

lemma quiet_refl: "quiet w w"
  by (simp add: quiet_def)

lemma quiet_trans: "quiet w w1 \<Longrightarrow> quiet w1 w2 \<Longrightarrow> quiet w w2"
  by (simp add: quiet_def)

lemma quiet_emit: "seed_events [e] = [] \<Longrightarrow> quiet w (emit e w)"
  by (simp add: quiet_def emit_def seed_events_append)

lemma quiet_tick: "quiet w (tick env w)"
  by (simp add: quiet_def tick_def)

lemma quiet_pk: "quiet w (pk_set k v w)" "quiet w (pk_inc k w)"
  by (simp_all add: quiet_def pk_set_def pk_inc_def)

lemma quiet_apply_async: "quiet w (apply_async ts w)"
  by (simp add: quiet_def apply_async_def)

lemma quiet_release: "quiet w (release_data_from_kvs env job sites R Q P w)"
  by (simp add: quiet_def frame_release)

lemma quiet_scan:
  "scan_sites key sites (hc, acc, n, w) = (hc', acc', n', w') \<Longrightarrow> quiet w w'"
proof (induction sites arbitrary: hc acc n w)
  case Nil
  then show ?case by (simp add: quiet_refl)
next
  case (Cons site rest)
  have e: "quiet w (emit (CacheRead (key site)) w)" by (simp add: quiet_emit)
  from Cons.prems show ?case
    by (auto simp add: get_value_json_decoded_def split: if_splits option.splits
        dest!: Cons.IH intro: quiet_trans [OF e])
qed

lemma quiet_poll: "poll fuel env kt upd sites pv w = (res, w') \<Longrightarrow> quiet w w'"
proof (induction fuel arbitrary: pv w)
  case 0
  then show ?case by (auto simp add: quiet_refl split: if_splits)
next
  case (Suc n)
  show ?case
  proof (cases "accounted_for pv = set sites")
    case True
    with Suc.prems show ?thesis by (simp add: quiet_refl)
  next
    case unfinished: False
    let ?fs = "failure_counters env (clock w)"
    show ?thesis
    proof (cases "?fs = []")
      case False
      with unfinished Suc.prems show ?thesis by (auto simp add: Let_def quiet_emit)
    next
      case clean: True
      let ?w2 = "tick env (emit (Sleep (pause pv)) (emit (FailureCheck []) w))"
      have q2: "quiet w ?w2"
        by (intro quiet_trans [OF quiet_emit quiet_trans [OF quiet_emit quiet_tick]]) simp_all
      obtain hc acc rf w3 where
        sc: "scan_sites (\<lambda>site. kt (hash_site env site)) sites ([], accounted_for pv, 0, ?w2)
               = (hc, acc, rf, w3)"
        by (metis prod_cases4)
      from quiet_scan [OF sc] q2 have q3: "quiet w w3" by (rule quiet_trans [rotated])
      show ?thesis
      proof (cases "rf = 0")
        case True
        with unfinished clean sc Suc.prems
        have "\<exists>pv'. poll n env kt upd sites pv' w3 = (res, w')"
          by (auto simp add: Let_def)
        then show ?thesis using Suc.IH q3 by (blast intro: quiet_trans)
      next
        case False
        with unfinished clean sc Suc.prems
        have "\<exists>pv' c. poll n env kt upd sites pv' (emit (SerializeCurves upd hc c) w3) = (res, w')"
          by (auto simp add: Let_def)
        then obtain pv' c where
          "poll n env kt upd sites pv' (emit (SerializeCurves upd hc c) w3) = (res, w')"
          by blast
        from Suc.IH [OF this] have "quiet (emit (SerializeCurves upd hc c) w3) w'" .
        moreover have "quiet w3 (emit (SerializeCurves upd hc c) w3)" by (simp add: quiet_emit)
        ultimately show ?thesis using q3 by (blast intro: quiet_trans)
      qed
    qed
  qed
qed

lemma quiet_serialize_hazard_curve:
  "serialize_hazard_curve fuel env kt upd sites w = (res, w') \<Longrightarrow> quiet w w'"
  unfolding serialize_hazard_curve_def Let_def by (rule quiet_poll)

lemma quiet_serialize_quantile_hazard_curves:
  "serialize_quantile_hazard_curves fuel env ctx sites qs w = (res, w') \<Longrightarrow> quiet w w'"
proof (induction qs arbitrary: w)
  case Nil
  then show ?case by (simp add: quiet_refl)
next
  case (Cons q qs)
  from Cons.prems show ?case
    by (auto split: prod.splits sum.splits
        dest!: quiet_serialize_hazard_curve Cons.IH intro: quiet_trans)
qed

lemma returning_None_world: "returning_None r = (res, w') \<Longrightarrow> snd r = w'"
  by (auto simp add: returning_None_def split: prod.splits sum.splits)

lemma quiet_handlers:
  "quiet_handler (curve_of_realization_handler fuel env ctx)"
  "quiet_handler (mean_curves_handler fuel env ctx)"
  "quiet_handler (quantile_curves_handler fuel env ctx)"
  unfolding quiet_handler_def curve_of_realization_handler_def mean_curves_handler_def
    quantile_curves_handler_def serialize_hazard_curve_of_realization_def
    serialize_mean_hazard_curves_def
  by (auto simp add: quiet_refl returning_None_def
      split: option.splits list.splits pyval.splits prod.splits sum.splits
      dest: quiet_serialize_hazard_curve quiet_serialize_quantile_hazard_curves)

lemma quiet_distribute:
  "(\<And>h. ath = Some h \<Longrightarrow> quiet_handler h) \<Longrightarrow>
   distribute t nd tf ath ath_args fl w = (res, w') \<Longrightarrow> quiet w w'"
  unfolding distribute_def Let_def quiet_handler_def
  by (auto split: if_splits option.splits sum.splits intro: quiet_apply_async)
     (meson quiet_trans quiet_apply_async)+

lemma quiet_read_map_data: "read_map_data key sites w = (hm, w') \<Longrightarrow> quiet w w'"
proof (induction sites arbitrary: w hm)
  case Nil
  then show ?case by (simp add: quiet_refl)
next
  case (Cons site rest)
  have e: "quiet w (emit (CacheRead (key site)) w)" by (simp add: quiet_emit)
  from Cons.prems show ?case
    by (auto simp add: get_value_json_decoded_def split: prod.splits
        dest!: Cons.IH intro: quiet_trans [OF e])
qed

lemma quiet_serialize_hazard_map_at_poe:
  "quiet w (serialize_hazard_map_at_poe env sites poe kt upd w)"
  unfolding serialize_hazard_map_at_poe_def
  by (auto split: prod.splits dest!: quiet_read_map_data
      intro: quiet_trans [OF _ quiet_emit])

lemma quiet_fold: "(\<And>x w. quiet w (f x w)) \<Longrightarrow> quiet w (fold f xs w)"
  by (induction xs arbitrary: w) (auto intro: quiet_refl quiet_trans)

lemma quiet_map_serializers:
  "quiet w (serialize_mean_hazard_map env ctx sites poes w)"
  "quiet w (serialize_quantile_hazard_map env ctx sites poes q w)"
  unfolding serialize_mean_hazard_map_def serialize_quantile_hazard_map_def
  by (auto intro!: quiet_fold quiet_serialize_hazard_map_at_poe)

lemma quiet_map_funcs:
  "quiet w (compute_mean_hazard_maps env job sites poes w)"
  "quiet w (compute_quantile_hazard_maps env job sites qs poes w)"
  unfolding compute_mean_hazard_maps_def compute_quantile_hazard_maps_def
  by (auto intro: quiet_trans [OF quiet_emit quiet_tick])

lemma quiet_do_means:
  "do_means env ctx sites R (Some (mean_curves_handler fuel env ctx)) task
     (Some (compute_mean_hazard_maps env)) (Some (serialize_mean_hazard_map env ctx)) w
     = (res, w') \<Longrightarrow> quiet w w'"
  unfolding do_means_def Let_def
  by (auto split: if_splits prod.splits sum.splits
      dest!: quiet_distribute [rotated] simp add: quiet_handlers quiet_refl
      intro: quiet_trans [OF _ quiet_trans [OF quiet_map_funcs(1) quiet_map_serializers(1)]])

lemma quiet_do_quantiles:
  "do_quantiles env ctx sites R qs (Some (quantile_curves_handler fuel env ctx)) task
     (Some (compute_quantile_hazard_maps env)) (Some (serialize_quantile_hazard_map env ctx)) w
     = (res, w') \<Longrightarrow> quiet w w'"
  unfolding do_quantiles_def Let_def
  by (auto split: if_splits prod.splits sum.splits
      dest!: quiet_distribute [rotated] simp add: quiet_handlers quiet_refl
      intro: quiet_trans [OF _ quiet_trans [OF quiet_map_funcs(2) quiet_fold]]
        quiet_map_serializers(2))

lemma draws_0: "draws env g 0 = []"
  by (simp add: draws_def)

lemma draws_Suc:
  "draws env g (Suc m) =
     [StoreSourceModel (random_stream env (rng_seed g) (rng_drawn g) mod 2 ^ 32),
      StoreGmpeMap (random_stream env (rng_seed g) (rng_drawn g + 1) mod 2 ^ 32)]
     @ draws env (g\<lparr>rng_drawn := rng_drawn g + 2\<rparr>) m"
proof -
  have "[0..<Suc m] = 0 # map Suc [0..<m]"
    by (simp add: upt_conv_Cons map_Suc_upt del: upt_Suc)
  then show ?thesis
    by (simp add: draws_def comp_def add.commute add.left_commute del: upt_Suc)
qed

lemma seeds_of_call_draws: "seeds_of_call env ctx m = draws env (Random_seed (SOURCE_MODEL_LT_RANDOM_SEED ctx)) m"
  by (simp add: seeds_of_call_def draws_def Random_seed_def)

lemma do_curves_loop_seeds:
  "(\<And>h. serializer = Some h \<Longrightarrow> quiet_handler h) \<Longrightarrow>
   do_curves_loop env ctx sites serializer task rs g gg w = (res, w') \<Longrightarrow>
   \<exists>m\<le>length rs. calls w' = calls w \<and>
      seed_events (log w') = seed_events (log w) @ draws env g m \<and>
      (res = Inr () \<longrightarrow> m = length rs)"
proof (induction rs arbitrary: g w)
  case Nil
  then show ?case by (simp add: draws_0)
next
  case (Cons r rs)
  let ?d1 = "getrandbits32 env g"
  let ?d2 = "getrandbits32 env (snd ?d1)"
  let ?w3 = "store_gmpe_map (fst ?d2) (store_source_model (fst ?d1) (pk_inc ''hcls_crealization'' w))"
  have g2: "snd ?d2 = g\<lparr>rng_drawn := rng_drawn g + 2\<rparr>"
    by (simp add: getrandbits32_def)
  have w3: "calls ?w3 = calls w"
    "seed_events (log ?w3) = seed_events (log w) @
       [StoreSourceModel (random_stream env (rng_seed g) (rng_drawn g) mod 2 ^ 32),
        StoreGmpeMap (random_stream env (rng_seed g) (rng_drawn g + 1) mod 2 ^ 32)]"
    by (simp_all add: store_gmpe_map_def store_source_model_def emit_def pk_inc_def
        getrandbits32_def seed_events_append)
  obtain r4 w4 where d: "distribute task (''sites'', map (\<lambda>s. PSeq [PSite s]) sites)
      (Some [(''job_id'', PInt (job_id ctx)), (''realization'', PInt (int r))]) serializer
      (Some [(''sites'', PSeq (map PSite sites)), (''realization'', PInt (int r))]) False ?w3
      = (r4, w4)"
    by (metis prod.exhaust)
  from quiet_distribute [OF Cons.prems(1) d] have q4: "quiet ?w3 w4" by simp
  show ?case
  proof (cases r4)
    case (Inl e)
    with d Cons.prems(2) have "res = Inl e" "w' = w4" by (simp_all add: Let_def)
    with q4 w3 have "calls w' = calls w \<and>
        seed_events (log w') = seed_events (log w) @ draws env g (Suc 0) \<and>
        (res = Inr () \<longrightarrow> Suc 0 = length (r # rs))"
      by (simp add: quiet_def draws_Suc draws_0)
    then show ?thesis by (intro exI [of _ "Suc 0"]) simp
  next
    case (Inr v)
    with d Cons.prems(2) have "do_curves_loop env ctx sites serializer task rs (snd ?d2) gg w4
        = (res, w')"
      by (simp add: Let_def)
    from Cons.IH [OF Cons.prems(1) this] obtain m where
      m: "m \<le> length rs" "calls w' = calls w4"
        "seed_events (log w') = seed_events (log w4) @ draws env (snd ?d2) m"
        "res = Inr () \<longrightarrow> m = length rs"
      by blast
    with q4 w3 g2 have "calls w' = calls w \<and>
        seed_events (log w') = seed_events (log w) @ draws env g (Suc m) \<and>
        (res = Inr () \<longrightarrow> Suc m = length (r # rs))"
      by (simp add: quiet_def draws_Suc)
    with m(1) show ?thesis by (intro exI [of _ "Suc m"]) simp
  qed
qed

lemma do_curves_seeds:
  "(\<And>h. serializer = Some h \<Longrightarrow> quiet_handler h) \<Longrightarrow>
   do_curves env ctx sites R serializer task w = (res, w') \<Longrightarrow>
   \<exists>m\<le>R. calls w' = calls w \<and>
      seed_events (log w') = seed_events (log w) @ seeds_of_call env ctx m \<and>
      (res = Inr () \<longrightarrow> m = R)"
  unfolding do_curves_def Let_def seeds_of_call_draws
  by (drule do_curves_loop_seeds [rotated]) (auto simp add: pk_set_def)

lemma starts_less: "0 < b \<Longrightarrow> s \<in> set (block_starts n b) \<Longrightarrow> s < n"
proof -
  assume b: "0 < b" and "s \<in> set (block_starts n b)"
  then obtain i where i: "s = i * b" "i < (n + b - 1) div b"
    by (auto simp add: block_starts_def)
  then have "Suc i \<le> (n + b - 1) div b" by simp
  with b have "Suc i * b \<le> n + b - 1" by (simp add: less_eq_div_iff_mult_less_eq)
  with b i(1) show "s < n" by simp
qed

lemma concat_blocks_take:
  "concat (map (\<lambda>i. take b (drop (i * b) xs)) [0..<k]) = take (k * b) xs"
proof (induction k)
  case 0
  show ?case by simp
next
  case (Suc k)
  have "take (k * b + b) xs = take (k * b) xs @ take b (drop (k * b) xs)"
    by (simp add: take_add)
  with Suc show ?case by (simp add: add.commute)
qed

lemma concat_blocks:
  "0 < b \<Longrightarrow> concat (map (block_of xs b) (block_starts (length xs) b)) = xs"
proof -
  assume b: "0 < b"
  let ?k = "(length xs + b - 1) div b"
  have "length xs + b - 1 < (Suc ?k) * b"
    using b dividend_less_times_div [of b "length xs + b - 1"] by (simp add: mult.commute)
  then have "length xs \<le> ?k * b" using b by simp
  then have "take (?k * b) xs = xs" by simp
  with concat_blocks_take [of b xs ?k] show ?thesis
    by (simp add: block_starts_def block_of_def comp_def)
qed

lemma py_slice_block:
  "start < length xs \<Longrightarrow> 0 < b \<Longrightarrow>
   py_slice xs (int start) (int start + int b) = block_of xs b start"
  by (simp add: py_slice_def clamp_index_def block_of_def Let_def min_def nat_add_distrib)

lemma py_range_starts: "0 < bs \<Longrightarrow> py_range n bs = Inr (block_starts n (nat bs))"
  by (simp add: py_range_def block_starts_def)

lemma calls_enter: "calls (enter ph start data w) = calls w @ [(ph, start, data)]"
  "log (enter ph start data w) = log w"
  by (simp_all add: enter_def)

lemma calls_pk: "calls (pk_inc k w) = calls w" "log (pk_inc k w) = log w"
  "calls (pk_set k v w) = calls w" "log (pk_set k v w) = log w"
  by (simp_all add: pk_inc_def pk_set_def)

lemma execute_block_step:
  assumes run: "execute_blocks fuel env ctx sites R bs (start # rest) w = (res, w')"
    and data: "data = py_slice sites (int start) (int start + bs)"
  shows "(\<exists>e j m. res = Inl e \<and> j < 3 \<and> m \<le> R \<and>
            calls w' = calls w @ take (Suc j)
              (map (\<lambda>ph. (ph, start, data)) [Curves, Means, Quantiles, Purge]) \<and>
            seed_events (log w') = seed_events (log w) @ seeds_of_call env ctx m)
         \<or> (\<exists>w5. calls w5 = calls w @
               map (\<lambda>ph. (ph, start, data)) [Curves, Means, Quantiles, Purge] \<and>
             seed_events (log w5) = seed_events (log w) @ seeds_of_call env ctx R \<and>
             execute_blocks fuel env ctx sites R bs rest w5 = (res, w'))"
proof -
  let ?w1 = "enter Curves start data (pk_inc ''cblock'' w)"
  obtain r2 w2 where c: "do_curves env ctx data R
      (Some (curve_of_realization_handler fuel env ctx)) compute_hazard_curve ?w1 = (r2, w2)"
    by (metis prod.exhaust)
  from do_curves_seeds [OF _ c] obtain m where
    m: "m \<le> R" "calls w2 = calls ?w1"
      "seed_events (log w2) = seed_events (log ?w1) @ seeds_of_call env ctx m"
      "r2 = Inr () \<longrightarrow> m = R"
    by (auto simp add: quiet_handlers)
  then have w2: "calls w2 = calls w @ [(Curves, start, data)]"
    "seed_events (log w2) = seed_events (log w) @ seeds_of_call env ctx m"
    by (simp_all add: calls_enter calls_pk)
  show ?thesis
  proof (cases r2)
    case (Inl e)
    with c run data have "res = Inl e" "w' = w2" by (simp_all add: Let_def)
    with w2 m(1) show ?thesis by (intro disjI1 exI [of _ e] exI [of _ 0] exI [of _ m]) simp
  next
    case curves: (Inr u2)
    with m(4) have mR: "m = R" by simp
    let ?w2' = "enter Means start data w2"
    obtain r3 w3 where mn: "do_means env ctx data R
        (Some (mean_curves_handler fuel env ctx)) compute_mean_curves
        (Some (compute_mean_hazard_maps env)) (Some (serialize_mean_hazard_map env ctx)) ?w2'
        = (r3, w3)"
      by (metis prod.exhaust)
    from quiet_do_means [OF mn] w2 mR
    have w3: "calls w3 = calls w @ [(Curves, start, data), (Means, start, data)]"
      "seed_events (log w3) = seed_events (log w) @ seeds_of_call env ctx R"
      by (simp_all add: quiet_def calls_enter)
    show ?thesis
    proof (cases r3)
      case (Inl e)
      with c curves mn run data have "res = Inl e" "w' = w3" by (simp_all add: Let_def)
      with w3 show ?thesis
        by (intro disjI1 exI [of _ e] exI [of _ 1] exI [of _ R]) simp
    next
      case means: (Inr u3)
      let ?w3' = "enter Quantiles start data w3"
      obtain r4 w4 where qn: "do_quantiles env ctx data R (quantile_levels ctx)
          (Some (quantile_curves_handler fuel env ctx)) compute_quantile_curves
          (Some (compute_quantile_hazard_maps env))
          (Some (serialize_quantile_hazard_map env ctx)) ?w3' = (r4, w4)"
        by (metis prod.exhaust)
      from quiet_do_quantiles [OF qn] w3
      have w4: "calls w4 = calls w @
            [(Curves, start, data), (Means, start, data), (Quantiles, start, data)]"
        "seed_events (log w4) = seed_events (log w) @ seeds_of_call env ctx R"
        by (simp_all add: quiet_def calls_enter)
      show ?thesis
      proof (cases r4)
        case (Inl e)
        with c curves mn means qn run data have "res = Inl e" "w' = w4"
          by (simp_all add: Let_def)
        with w4 show ?thesis
          by (intro disjI1 exI [of _ e] exI [of _ 2] exI [of _ R])
             (simp add: numeral_3_eq_3)
      next
        case quantiles: (Inr u4)
        let ?w5 = "release_data_from_kvs env (job_id ctx) data R (quantile_levels ctx)
            (poes_hazard_maps ctx) (enter Purge start data w4)"
        from c curves mn means qn quantiles run data
        have rec: "execute_blocks fuel env ctx sites R bs rest ?w5 = (res, w')"
          by (simp add: Let_def)
        have "calls ?w5 = calls w @
            map (\<lambda>ph. (ph, start, data)) [Curves, Means, Quantiles, Purge]"
          "seed_events (log ?w5) = seed_events (log w) @ seeds_of_call env ctx R"
          using w4 by (simp_all add: frame_release calls_enter)
        with rec show ?thesis by blast
      qed
    qed
  qed
qed

lemma execute_blocks_spec:
  "0 < b \<Longrightarrow> \<forall>s\<in>set starts. s < length sites \<Longrightarrow>
   execute_blocks fuel env ctx sites R (int b) starts w = (res, w') \<Longrightarrow>
   (res = Inr () \<longrightarrow>
      calls w' = calls w @ concat (map (phases_of_block sites b) starts) \<and>
      seed_events (log w') = seed_events (log w)
        @ concat (replicate (length starts) (seeds_of_call env ctx R))) \<and>
   (\<forall>e. res = Inl e \<longrightarrow>
      (\<exists>k j m. k < length starts \<and> j < 3 \<and> m \<le> R \<and>
         calls w' = calls w @ concat (map (phases_of_block sites b) (take k starts))
           @ take (Suc j) (phases_of_block sites b (starts ! k)) \<and>
         seed_events (log w') = seed_events (log w)
           @ concat (replicate k (seeds_of_call env ctx R)) @ seeds_of_call env ctx m))"
proof (induction starts arbitrary: w)
  case Nil
  then show ?case by auto
next
  case (Cons start rest)
  from Cons.prems(1,2)
  have data: "block_of sites b start = py_slice sites (int start) (int start + int b)"
    by (simp add: py_slice_block)
  have ph: "phases_of_block sites b start =
      map (\<lambda>ph. (ph, start, block_of sites b start)) [Curves, Means, Quantiles, Purge]"
    by (simp add: phases_of_block_def)
  from execute_block_step [OF Cons.prems(3) data]
  show ?case
  proof (elim disjE exE conjE)
    fix e j m
    assume f: "res = Inl e" "j < 3" "m \<le> R"
      "calls w' = calls w @ take (Suc j)
         (map (\<lambda>ph. (ph, start, block_of sites b start)) [Curves, Means, Quantiles, Purge])"
      "seed_events (log w') = seed_events (log w) @ seeds_of_call env ctx m"
    then have "0 < length (start # rest) \<and> j < 3 \<and> m \<le> R \<and>
         calls w' = calls w @ concat (map (phases_of_block sites b) (take 0 (start # rest)))
           @ take (Suc j) (phases_of_block sites b ((start # rest) ! 0)) \<and>
         seed_events (log w') = seed_events (log w)
           @ concat (replicate 0 (seeds_of_call env ctx R)) @ seeds_of_call env ctx m"
      by (simp add: ph)
    with f(1) show ?thesis by blast
  next
    fix w5
    assume s: "calls w5 = calls w @
          map (\<lambda>ph. (ph, start, block_of sites b start)) [Curves, Means, Quantiles, Purge]"
      "seed_events (log w5) = seed_events (log w) @ seeds_of_call env ctx R"
      "execute_blocks fuel env ctx sites R (int b) rest w5 = (res, w')"
    from Cons.prems(2) have "\<forall>s\<in>set rest. s < length sites" by simp
    from Cons.IH [OF Cons.prems(1) this s(3)]
    have ok: "res = Inr () \<longrightarrow>
        calls w' = calls w5 @ concat (map (phases_of_block sites b) rest) \<and>
        seed_events (log w') = seed_events (log w5)
          @ concat (replicate (length rest) (seeds_of_call env ctx R))"
      and bad: "\<forall>e. res = Inl e \<longrightarrow>
        (\<exists>k j m. k < length rest \<and> j < 3 \<and> m \<le> R \<and>
           calls w' = calls w5 @ concat (map (phases_of_block sites b) (take k rest))
             @ take (Suc j) (phases_of_block sites b (rest ! k)) \<and>
           seed_events (log w') = seed_events (log w5)
             @ concat (replicate k (seeds_of_call env ctx R)) @ seeds_of_call env ctx m)"
      by blast+
    have a: "res = Inr () \<longrightarrow>
        calls w' = calls w @ concat (map (phases_of_block sites b) (start # rest)) \<and>
        seed_events (log w') = seed_events (log w)
          @ concat (replicate (length (start # rest)) (seeds_of_call env ctx R))"
      using ok s(1,2) by (simp add: ph)
    have b: "\<forall>e. res = Inl e \<longrightarrow>
        (\<exists>k j m. k < length (start # rest) \<and> j < 3 \<and> m \<le> R \<and>
           calls w' = calls w @ concat (map (phases_of_block sites b) (take k (start # rest)))
             @ take (Suc j) (phases_of_block sites b ((start # rest) ! k)) \<and>
           seed_events (log w') = seed_events (log w)
             @ concat (replicate k (seeds_of_call env ctx R)) @ seeds_of_call env ctx m)"
    proof (intro allI impI)
      fix e
      assume "res = Inl e"
      with bad obtain k j m where
        k: "k < length rest" "j < 3" "m \<le> R"
          "calls w' = calls w5 @ concat (map (phases_of_block sites b) (take k rest))
             @ take (Suc j) (phases_of_block sites b (rest ! k))"
          "seed_events (log w') = seed_events (log w5)
             @ concat (replicate k (seeds_of_call env ctx R)) @ seeds_of_call env ctx m"
        by blast
      with s(1,2) have "Suc k < length (start # rest) \<and> j < 3 \<and> m \<le> R \<and>
           calls w' = calls w
             @ concat (map (phases_of_block sites b) (take (Suc k) (start # rest)))
             @ take (Suc j) (phases_of_block sites b ((start # rest) ! Suc k)) \<and>
           seed_events (log w') = seed_events (log w)
             @ concat (replicate (Suc k) (seeds_of_call env ctx R)) @ seeds_of_call env ctx m"
        by (simp add: ph)
      then show "\<exists>k j m. k < length (start # rest) \<and> j < 3 \<and> m \<le> R \<and>
           calls w' = calls w @ concat (map (phases_of_block sites b) (take k (start # rest)))
             @ take (Suc j) (phases_of_block sites b ((start # rest) ! k)) \<and>
           seed_events (log w') = seed_events (log w)
             @ concat (replicate k (seeds_of_call env ctx R)) @ seeds_of_call env ctx m"
        by blast
    qed
    from a b show ?thesis by blast
  qed
qed

lemma execute_unfold:
  "0 < hazard_block_size ctx \<Longrightarrow> execute fuel env ctx w = (res, w') \<Longrightarrow>
   \<exists>w0. calls w0 = calls w \<and> log w0 = log w \<and>
     execute_blocks fuel env ctx (sites_to_compute ctx) (NUMBER_OF_LOGIC_TREE_SAMPLES ctx)
       (int (nat (hazard_block_size ctx)))
       (block_starts (length (sites_to_compute ctx)) (nat (hazard_block_size ctx))) w0
     = (res, w')"
  unfolding execute_def Let_def
  apply (simp add: py_range_starts)
  apply (rule exI, rule conjI [rotated], rule conjI [rotated], assumption)
  apply (simp_all add: calls_pk)
  done

lemma entered_block_lengths:
  "0 < b \<Longrightarrow> i < length (block_starts (length sites) b) \<Longrightarrow>
   block_starts (length sites) b ! i = i * b \<and>
   length (block_of sites b (block_starts (length sites) b ! i)) = min b (length sites - i * b) \<and>
   block_of sites b (block_starts (length sites) b ! i) \<noteq> []"
proof -
  assume b: "0 < b" and i: "i < length (block_starts (length sites) b)"
  then have n: "block_starts (length sites) b ! i = i * b"
    by (simp add: block_starts_def)
  from i have "block_starts (length sites) b ! i \<in> set (block_starts (length sites) b)"
    by simp
  from starts_less [OF b this] n have "i * b < length sites" by simp
  with b n show ?thesis by (auto simp add: block_of_def)
qed

lemma distinct_block_starts: "0 < b \<Longrightarrow> distinct (block_starts n b)"
  by (simp add: block_starts_def distinct_map inj_on_def)

lemma purge_not_entered:
  assumes "distinct starts" "k < length starts" "j < 3"
  shows "(Purge, starts ! k, block_of sites b (starts ! k)) \<notin>
     set (concat (map (phases_of_block sites b) (take k starts))
          @ take (Suc j) (phases_of_block sites b (starts ! k)))"
proof -
  from assms(1,2) have "starts ! k \<notin> set (take k starts)"
    by (auto simp add: in_set_conv_nth nth_eq_iff_index_eq)
  then have a: "(Purge, starts ! k, block_of sites b (starts ! k)) \<notin>
      set (concat (map (phases_of_block sites b) (take k starts)))"
    by (auto simp add: phases_of_block_def)
  from assms(3) have "j = 0 \<or> j = 1 \<or> j = 2" by auto
  then have "(Purge, starts ! k, block_of sites b (starts ! k)) \<notin>
      set (take (Suc j) (phases_of_block sites b (starts ! k)))"
    by (auto simp add: phases_of_block_def numeral_2_eq_2)
  with a show ?thesis by simp
qed

text \<open>
  C7. With a positive block size \<open>b\<close>, \<open>execute\<close> works through the blocks
  that start at the offsets \<open>0, b, 2 * b, ...\<close> below the number of sites; the block
  at \<open>start\<close> is the slice \<open>[start, start + b)\<close> of the site list, the blocks are
  non-empty and concatenate to the site list, and a block reaching beyond the end
  (the last one) is the shorter slice that remains, handled by the same code. When
  \<open>execute\<close> returns, the phases entered are, block after block in list order,
  raw curves, means, quantiles, purge. When it raises, the blocks before the
  failing one were worked through completely, the failing block stops in its
  curves, means or quantiles phase, and its purge is not entered.
\<close>

theorem blocks_processed_in_order:
  assumes "0 < hazard_block_size ctx" and "execute fuel env ctx w = (res, w')"
    and "b = nat (hazard_block_size ctx)" and "sites = sites_to_compute ctx"
    and "starts = block_starts (length sites) b"
  shows "concat (map (block_of sites b) starts) = sites \<and>
    (\<forall>i<length starts. starts ! i = i * b \<and>
       length (block_of sites b (starts ! i)) = min b (length sites - i * b) \<and>
       block_of sites b (starts ! i) \<noteq> []) \<and>
    (res = Inr () \<longrightarrow> calls w' = calls w @ concat (map (phases_of_block sites b) starts)) \<and>
    (\<forall>e. res = Inl e \<longrightarrow>
       (\<exists>k j. k < length starts \<and> j < 3 \<and>
          calls w' = calls w @ concat (map (phases_of_block sites b) (take k starts))
            @ take (Suc j) (phases_of_block sites b (starts ! k)) \<and>
          (Purge, starts ! k, block_of sites b (starts ! k)) \<notin>
            set (drop (length (calls w)) (calls w'))))"
proof -
  from assms(1,3) have b: "0 < b" by simp
  from assms(1,2) obtain w0 where w0: "calls w0 = calls w" "log w0 = log w"
    "execute_blocks fuel env ctx sites (NUMBER_OF_LOGIC_TREE_SAMPLES ctx) (int b) starts w0
       = (res, w')"
    unfolding assms(3,4,5) by (blast dest: execute_unfold)
  have lt: "\<forall>s\<in>set starts. s < length sites"
    using starts_less [OF b] assms(5) by blast
  note spec = execute_blocks_spec [OF b lt w0(3)]
  have c1: "concat (map (block_of sites b) starts) = sites"
    unfolding assms(5) using b by (rule concat_blocks)
  have c2: "\<forall>i<length starts. starts ! i = i * b \<and>
       length (block_of sites b (starts ! i)) = min b (length sites - i * b) \<and>
       block_of sites b (starts ! i) \<noteq> []"
    unfolding assms(5) using entered_block_lengths [OF b] by blast
  have c3: "res = Inr () \<longrightarrow> calls w' = calls w @ concat (map (phases_of_block sites b) starts)"
    using spec w0(1) by simp
  have c4: "\<forall>e. res = Inl e \<longrightarrow>
       (\<exists>k j. k < length starts \<and> j < 3 \<and>
          calls w' = calls w @ concat (map (phases_of_block sites b) (take k starts))
            @ take (Suc j) (phases_of_block sites b (starts ! k)) \<and>
          (Purge, starts ! k, block_of sites b (starts ! k)) \<notin>
            set (drop (length (calls w)) (calls w')))"
  proof (intro allI impI)
    fix e
    assume "res = Inl e"
    with spec w0(1) obtain k j where
      k: "k < length starts" "j < 3"
        "calls w' = calls w @ concat (map (phases_of_block sites b) (take k starts))
            @ take (Suc j) (phases_of_block sites b (starts ! k))"
      by auto
    have "distinct starts" unfolding assms(5) using b by (rule distinct_block_starts)
    from purge_not_entered [OF this k(1,2), of sites b] k(3)
    have "(Purge, starts ! k, block_of sites b (starts ! k)) \<notin>
        set (drop (length (calls w)) (calls w'))"
      by simp
    with k show "\<exists>k j. k < length starts \<and> j < 3 \<and>
          calls w' = calls w @ concat (map (phases_of_block sites b) (take k starts))
            @ take (Suc j) (phases_of_block sites b (starts ! k)) \<and>
          (Purge, starts ! k, block_of sites b (starts ! k)) \<notin>
            set (drop (length (calls w)) (calls w'))"
      by blast
  qed
  from c1 c2 c3 c4 show ?thesis by blast
qed

text \<open>
  C10. The seeds stored in a run of \<open>execute\<close> are those of one call of
  \<open>do_curves\<close>, repeated for every block worked through: for the realization
  \<open>r\<close> every block stores the draws \<open>2 * r\<close> and \<open>2 * r + 1\<close> of the stream
  seeded with \<^verbatim>\<open>SOURCE_MODEL_LT_RANDOM_SEED\<close>, a function of the job's seed and
  \<open>r\<close> alone. A run that raises ends with a prefix of that same sequence.
\<close>

theorem seeds_same_in_every_block:
  assumes "execute fuel env ctx w = (res, w')"
    and "R = NUMBER_OF_LOGIC_TREE_SAMPLES ctx"
    and "n = length (block_starts (length (sites_to_compute ctx)) (nat (hazard_block_size ctx)))"
  shows "\<exists>k m. k \<le> n \<and> m \<le> R \<and>
    seed_events (log w') = seed_events (log w)
      @ concat (replicate k (seeds_of_call env ctx R)) @ seeds_of_call env ctx m \<and>
    (res = Inr () \<longrightarrow> k = n \<and> m = 0)"
proof (cases "0 < hazard_block_size ctx")
  case True
  let ?b = "nat (hazard_block_size ctx)"
  let ?starts = "block_starts (length (sites_to_compute ctx)) ?b"
  from True have b: "0 < ?b" by simp
  from execute_unfold [OF True assms(1)] obtain w0 where w0: "calls w0 = calls w"
    "log w0 = log w"
    "execute_blocks fuel env ctx (sites_to_compute ctx) R (int ?b) ?starts w0 = (res, w')"
    unfolding assms(2) by blast
  have lt: "\<forall>s\<in>set ?starts. s < length (sites_to_compute ctx)"
    using starts_less [OF b] by blast
  note spec = execute_blocks_spec [OF b lt w0(3)]
  show ?thesis
  proof (cases res)
    case (Inl e)
    with spec obtain k m where "k < length ?starts" "m \<le> R"
      "seed_events (log w') = seed_events (log w0)
         @ concat (replicate k (seeds_of_call env ctx R)) @ seeds_of_call env ctx m"
      by auto
    with Inl w0(2) assms(3) show ?thesis
      by (intro exI [of _ k] exI [of _ m]) simp
  next
    case (Inr u)
    with spec have "seed_events (log w') = seed_events (log w0)
         @ concat (replicate n (seeds_of_call env ctx R))"
      unfolding assms(3) by simp
    with w0(2) show ?thesis
      by (intro exI [of _ n] exI [of _ 0]) (simp add: seeds_of_call_def)
  qed
next
  case False
  with assms(1) have "seed_events (log w') = seed_events (log w)" "n = 0"
    unfolding assms(3)
    by (auto simp add: execute_def Let_def py_range_def calls_pk block_starts_def
        split: if_splits)
  then show ?thesis
    by (intro exI [of _ 0] exI [of _ 0]) (simp add: seeds_of_call_def)
qed

text \<open>
  The generator seeded with \<^verbatim>\<open>GMPE_LT_RANDOM_SEED\<close> is created and never
  drawn from: what \<open>do_curves\<close> does is the same for every value of that seed.
\<close>

lemma do_curves_loop_ignores_gmpe:
  "do_curves_loop env ctx sites ser task rs g gg w =
   do_curves_loop env (ctx\<lparr>GMPE_LT_RANDOM_SEED := s\<rparr>) sites ser task rs g gg' w"
  by (induction rs arbitrary: g w) (simp_all add: Let_def split: prod.splits sum.splits)

lemma do_curves_ignores_gmpe_seed:
  "do_curves env (ctx\<lparr>GMPE_LT_RANDOM_SEED := s\<rparr>) sites R ser task w =
   do_curves env ctx sites R ser task w"
  unfolding do_curves_def Let_def
  using do_curves_loop_ignores_gmpe [symmetric] by simp

text \<open>
  C2 fails on the code. With the source-model seed 1 and the ground-motion-model
  seed 2, the seed handed to \<^verbatim>\<open>store_gmpe_map\<close> for realization 0 is 1001, the
  second draw of the stream seeded with 1; the first draw of the stream seeded
  with 2 would be 2000.
\<close>

theorem gmpe_seed_from_source_stream:
  "log (snd (do_curves example_env example_ctxt [1, 2] 1 None compute_hazard_curve empty_world))
     = [StoreSourceModel 1000, StoreGmpeMap 1001] \<and>
   random_stream example_env (SOURCE_MODEL_LT_RANDOM_SEED example_ctxt) 1 mod 2 ^ 32 = 1001 \<and>
   random_stream example_env (GMPE_LT_RANDOM_SEED example_ctxt) 0 mod 2 ^ 32 = 2000"
  by (simp add: do_curves_def Let_def example_env_def example_ctxt_def empty_world_def
      Random_seed_def getrandbits32_def store_source_model_def store_gmpe_map_def emit_def
      pk_set_def pk_inc_def distribute_def make_subtasks_def apply_async_def
      compute_hazard_curve_def)

end
